theory Spec2Isabelle
  imports Complex_Main "HOL-Library.Sublist"
begin

section \<open>JavaScript strings\<close>

text \<open>
  A JavaScript string is a sequence of code units; it is modelled as a \<open>string\<close>
  (a list of characters).  Every string operation of the source that the engine uses works
  code unit by code unit, so the model follows it on lists.
\<close>

text \<open>\<open>s.startsWith(t)\<close>.\<close>

fun startsWith :: "string \<Rightarrow> string \<Rightarrow> bool" where
  "startsWith s [] = True"
| "startsWith [] (c # t) = False"
| "startsWith (a # s) (c # t) = (a = c \<and> startsWith s t)"

text \<open>\<open>s.endsWith(t)\<close>.\<close>

definition endsWith :: "string \<Rightarrow> string \<Rightarrow> bool" where
  "endsWith s t = (length t \<le> length s \<and> drop (length s - length t) s = t)"

text \<open>\<open>s.includes(t)\<close>: \<open>t\<close> occurs in \<open>s\<close> at some position
  (\<open>includes\<close> is a reserved word of the prover, hence the suffix).\<close>

fun includesStr :: "string \<Rightarrow> string \<Rightarrow> bool" where
  "includesStr [] t = (t = [])"
| "includesStr (a # s) t = (startsWith (a # s) t \<or> includesStr s t)"

text \<open>\<open>s.split(sep)\<close> for a separator of one character.\<close>

fun splitOn :: "char \<Rightarrow> string \<Rightarrow> string list" where
  "splitOn sep [] = [[]]"
| "splitOn sep (c # s) =
     (if c = sep then [] # splitOn sep s
      else (case splitOn sep s of
              [] \<Rightarrow> [[c]]
            | w # ws \<Rightarrow> (c # w) # ws))"

text \<open>\<open>s.replace(/\\/g, '/')\<close>: every backslash becomes a forward slash.\<close>

definition backslash :: char where
  "backslash = CHR 0x5C"

definition replaceBackslashes :: "string \<Rightarrow> string" where
  "replaceBackslashes s = map (\<lambda>c. if c = backslash then CHR ''/'' else c) s"

text \<open>\<open>s.replace(/[*?]/g, '')\<close>: the wildcard characters are removed.\<close>

definition removeWildcards :: "string \<Rightarrow> string" where
  "removeWildcards s = filter (\<lambda>c. c \<noteq> CHR ''*'' \<and> c \<noteq> CHR ''?'') s"

section \<open>JavaScript numbers\<close>

text \<open>
  A JavaScript number is an IEEE-754 double: a rational number, an infinity or NaN.
  The finite values of the model range over all rationals, which include every double.
\<close>

datatype jsNumber = Num rat | PosInfinity | NegInfinity | NaN

text \<open>Truthiness of an optional number: \<open>undefined\<close>, \<open>0\<close> and \<open>NaN\<close> are falsy.\<close>

definition truthyJsNumber :: "jsNumber option \<Rightarrow> bool" where
  "truthyJsNumber v =
     (case v of
        None \<Rightarrow> False
      | Some (Num r) \<Rightarrow> r \<noteq> 0
      | Some PosInfinity \<Rightarrow> True
      | Some NegInfinity \<Rightarrow> True
      | Some NaN \<Rightarrow> False)"

text \<open>
  Rounding to the nearest double, ties to the even significand.  \<open>floorLog2 n\<close> is the
  position of the leading bit of a positive integer, and \<open>binaryExponent x\<close> is the
  exponent \<open>e\<close> with \<open>2^e \<le> |x| < 2^(e+1)\<close>, found from the leading bits of numerator
  and denominator; a double has 53 significant bits, so its unit in the last place is
  \<open>2^(e-52)\<close>.  The exponent range is not limited here: the
  rounding is used for specificity scores, which lie between 0.1 and 2^53 and so neither
  overflow nor reach the subnormal range.
\<close>

function floorLog2 :: "int \<Rightarrow> int" where
  "floorLog2 n = (if n \<le> 1 then 0 else 1 + floorLog2 (n div 2))"
  by pat_completeness auto
termination
  by (relation "measure nat") auto

definition binaryExponent :: "rat \<Rightarrow> int" where
  "binaryExponent x =
     (let (a, b) = quotient_of \<bar>x\<bar>;
          d = floorLog2 a - floorLog2 b
      in if 2 powi d \<le> \<bar>x\<bar> then d else d - 1)"

definition roundHalfEven :: "rat \<Rightarrow> int" where
  "roundHalfEven q =
     (let f = \<lfloor>q\<rfloor>; r = q - of_int f
      in if r < 1 / 2 then f
         else if 1 / 2 < r then f + 1
         else if even f then f else f + 1)"

definition roundDouble :: "rat \<Rightarrow> rat" where
  "roundDouble x =
     (if x = 0 then 0
      else (let ulp = 2 powi (binaryExponent x - 52)
            in of_int (roundHalfEven (x / ulp)) * ulp))"

text \<open>
  The operators \<open>+\<close> and \<open>*\<close> on finite doubles, correctly rounded as the standard
  requires, and the literal \<open>0.1\<close>, which denotes the double nearest to one tenth.
\<close>

definition jsAdd :: "rat \<Rightarrow> rat \<Rightarrow> rat" where
  "jsAdd x y = roundDouble (x + y)"

definition jsMul :: "rat \<Rightarrow> rat \<Rightarrow> rat" where
  "jsMul x y = roundDouble (x * y)"

definition oneTenth :: rat where
  "oneTenth = roundDouble (1 / 10)"

text \<open>
  A bound on the error of one rounding of a value of magnitude up to \<open>2^30 + 1\<close>; it
  serves the error analysis of the score and is no part of the program.
\<close>

definition roundingSlack :: rat where
  "roundingSlack = (2 ^ 30 + 1) / 2 ^ 53"

text \<open>
  \<open>Math.pow(2, k)\<close> for an integer \<open>k\<close>: the exact power while it is a double, infinite
  above the largest exponent 1023 and zero below the smallest subnormal \<open>2^-1074\<close>.
\<close>

definition mathPow2 :: "int \<Rightarrow> jsNumber" where
  "mathPow2 k = (if 1023 < k then PosInfinity else if k < - 1074 then Num 0 else Num (2 powi k))"

text \<open>
  The product \<open>x * p\<close> where \<open>p\<close> is a power of two or infinite, the only product the
  retry loop forms.  Scaling a double by a power of two changes its exponent and keeps
  its significand, so the product is exact unless its magnitude reaches \<open>2^1024\<close>, where
  it overflows to an infinity.
\<close>

definition signedInfinity :: "rat \<Rightarrow> jsNumber" where
  "signedInfinity s = (if s = 0 then NaN else if 0 < s then PosInfinity else NegInfinity)"

fun jsTimes :: "jsNumber \<Rightarrow> jsNumber \<Rightarrow> jsNumber" where
  "jsTimes (Num a) (Num p) =
     (if 2 ^ 1024 \<le> \<bar>a * p\<bar> then signedInfinity (a * p) else Num (a * p))"
| "jsTimes (Num a) PosInfinity = signedInfinity a"
| "jsTimes (Num a) NegInfinity = signedInfinity (- a)"
| "jsTimes PosInfinity (Num p) = signedInfinity p"
| "jsTimes NegInfinity (Num p) = signedInfinity (- p)"
| "jsTimes PosInfinity PosInfinity = PosInfinity"
| "jsTimes PosInfinity NegInfinity = NegInfinity"
| "jsTimes NegInfinity PosInfinity = NegInfinity"
| "jsTimes NegInfinity NegInfinity = PosInfinity"
| "jsTimes NaN y = NaN"
| "jsTimes x NaN = NaN"


text \<open>
  The comparison \<open>attempt <= limit\<close> of an integer counter with a number; a comparison
  with NaN is false.
\<close>

definition withinLimit :: "int \<Rightarrow> jsNumber \<Rightarrow> bool" where
  "withinLimit attempt limit =
     (case limit of
        Num r \<Rightarrow> of_int attempt \<le> r
      | PosInfinity \<Rightarrow> True
      | NegInfinity \<Rightarrow> False
      | NaN \<Rightarrow> False)"

section \<open>Quality rules engine: directory matching\<close>

text \<open>
  \<open>QualityRulesEngine.matchesDirectory(imagePath, ruleDirectory)\<close>
  (src/core/quality-rules-engine.js).
\<close>

definition matchesDirectory :: "string \<Rightarrow> string \<Rightarrow> bool" where
  "matchesDirectory imagePath ruleDirectory =
     (let normalizedPath = replaceBackslashes imagePath;
          normalizedDir = replaceBackslashes ruleDirectory;
          dirWithSlash = (if endsWith normalizedDir ''/'' then normalizedDir
                          else normalizedDir @ ''/'')
      in includesStr normalizedPath dirWithSlash)"

text \<open>The segments of a normalised path: the pieces between the forward slashes.\<close>

definition pathSegments :: "string \<Rightarrow> string list" where
  "pathSegments p = splitOn (CHR ''/'') (replaceBackslashes p)"

section \<open>Quality rules engine: rules, matching and specificity\<close>

text \<open>
  A rule is a loosely typed object; every criterion may be absent.  The source tests the
  criteria for truthiness: an absent or empty string and an absent or zero number count
  as "not given".
\<close>

record rule =
  pattern :: "string option"
  directory :: "string option"
  minWidth :: "int option"
  minHeight :: "int option"
  maxWidth :: "int option"
  maxHeight :: "int option"
  quality :: "(string \<rightharpoonup> int) option"

record metadata =
  width :: "int option"
  height :: "int option"

text \<open>The object \<open>{}\<close>: a rule with no field set.\<close>

definition emptyRule :: rule where
  "emptyRule = \<lparr> pattern = None, directory = None, minWidth = None, minHeight = None,
                 maxWidth = None, maxHeight = None, quality = None \<rparr>"

definition truthyString :: "string option \<Rightarrow> bool" where
  "truthyString v = (case v of None \<Rightarrow> False | Some s \<Rightarrow> s \<noteq> [])"

definition truthyNumber :: "int option \<Rightarrow> bool" where
  "truthyNumber v = (case v of None \<Rightarrow> False | Some n \<Rightarrow> n \<noteq> 0)"

text \<open>\<open>v || 0\<close> on an optional number.\<close>

definition orZero :: "int option \<Rightarrow> int" where
  "orZero v = (case v of None \<Rightarrow> 0 | Some n \<Rightarrow> n)"

text \<open>
  The two injected dependencies of the engine, \<open>minimatch\<close> (called with
  \<open>{ nocase: true }\<close>) and \<open>path.basename\<close>, are libraries outside the repository and
  are parameters of the model.
\<close>

record dependencies =
  minimatch :: "string \<Rightarrow> string \<Rightarrow> bool"
  basename :: "string \<Rightarrow> string"

text \<open>\<open>QualityRulesEngine.checkSizeRule(rule, metadata)\<close>.\<close>

definition hasSizeRule :: "rule \<Rightarrow> bool" where
  "hasSizeRule r =
     (truthyNumber (minWidth r) \<or> truthyNumber (minHeight r) \<or>
      truthyNumber (maxWidth r) \<or> truthyNumber (maxHeight r))"

definition checkSizeRule :: "rule \<Rightarrow> metadata option \<Rightarrow> bool" where
  "checkSizeRule r md =
     (if \<not> truthyNumber (minWidth r) \<and> \<not> truthyNumber (minHeight r) \<and>
         \<not> truthyNumber (maxWidth r) \<and> \<not> truthyNumber (maxHeight r) then True
      else (case md of
              None \<Rightarrow> False
            | Some m \<Rightarrow>
                (let w = orZero (width m); h = orZero (height m)
                 in if truthyNumber (minWidth r) \<and> w < the (minWidth r) then False
                    else if truthyNumber (minHeight r) \<and> h < the (minHeight r) then False
                    else if truthyNumber (maxWidth r) \<and> w > the (maxWidth r) then False
                    else if truthyNumber (maxHeight r) \<and> h > the (maxHeight r) then False
                    else True)))"

text \<open>\<open>QualityRulesEngine.ruleMatches(rule, imagePath, metadata)\<close>.\<close>

definition ruleMatches :: "dependencies \<Rightarrow> rule \<Rightarrow> string \<Rightarrow> metadata option \<Rightarrow> bool" where
  "ruleMatches deps r imagePath md =
     (let patternMatch = (\<not> truthyString (pattern r) \<or>
                          minimatch deps (basename deps imagePath) (the (pattern r)));
          directoryMatch = (\<not> truthyString (directory r) \<or>
                            matchesDirectory imagePath (the (directory r)));
          sizeMatch = checkSizeRule r md
      in patternMatch \<and> directoryMatch \<and> sizeMatch)"

text \<open>
  \<open>QualityRulesEngine.getSpecificityScore(rule)\<close>, in double arithmetic as the source
  computes it: every \<open>+=\<close> and every product is rounded.  The two counts are lengths
  of arrays and strings, integers a double holds exactly.
\<close>

definition nonWildcardChars :: "string \<Rightarrow> nat" where
  "nonWildcardChars p = length (removeWildcards p)"

text \<open>\<open>directory.split('/').filter(Boolean).length\<close>: the number of non-empty segments.\<close>

definition directoryDepth :: "string \<Rightarrow> nat" where
  "directoryDepth d = length (filter (\<lambda>seg. seg \<noteq> []) (splitOn (CHR ''/'') d))"

definition criteriaCount :: "rule \<Rightarrow> nat" where
  "criteriaCount r =
     length (filter (\<lambda>b. b) [truthyString (pattern r), truthyString (directory r), hasSizeRule r])"

definition getSpecificityScore :: "rule \<Rightarrow> rat" where
  "getSpecificityScore r =
     (let score0 = 0;
          score1 = (if truthyString (pattern r)
                    then jsAdd (jsAdd score0 4)
                           (jsMul (of_nat (nonWildcardChars (the (pattern r)))) oneTenth)
                    else score0);
          score2 = (if truthyString (directory r)
                    then jsAdd (jsAdd score1 2)
                           (jsMul (of_nat (directoryDepth (the (directory r)))) oneTenth)
                    else score1);
          score3 = (if hasSizeRule r then jsAdd score2 1 else score2)
      in if criteriaCount r > 1 then jsAdd score3 (jsMul (of_nat (criteriaCount r)) 2)
         else score3)"

text \<open>
  The same sum in exact arithmetic, the value the doubles approximate; it serves the
  proofs and is no part of the program.
\<close>

definition exactScore :: "rule \<Rightarrow> rat" where
  "exactScore r =
     (if truthyString (pattern r)
      then 4 + of_nat (nonWildcardChars (the (pattern r))) / 10 else 0) +
     (if truthyString (directory r)
      then 2 + of_nat (directoryDepth (the (directory r))) / 10 else 0) +
     (if hasSizeRule r then 1 else 0) +
     (if criteriaCount r > 1 then of_nat (criteriaCount r) * 2 else 0)"

text \<open>
  \<open>Array.prototype.sort(compare)\<close>.  The language guarantees a stable sort; for a
  comparator that is a consistent order the result is the one stable arrangement, which
  insertion from the right computes.
\<close>

fun insertWith :: "('a \<Rightarrow> 'a \<Rightarrow> rat) \<Rightarrow> 'a \<Rightarrow> 'a list \<Rightarrow> 'a list" where
  "insertWith cmp x [] = [x]"
| "insertWith cmp x (y # ys) =
     (if cmp x y \<le> 0 then x # y # ys else y # insertWith cmp x ys)"

definition sortWith :: "('a \<Rightarrow> 'a \<Rightarrow> rat) \<Rightarrow> 'a list \<Rightarrow> 'a list" where
  "sortWith cmp xs = foldr (insertWith cmp) xs []"

text \<open>
  \<open>QualityRulesEngine.sortRulesBySpecificity(rules)\<close>.  The parameter \<open>score\<close> is
  \<open>this.getSpecificityScore\<close> as the engine evaluates it: every double is a rational
  number, and the difference of two doubles has the sign of their exact difference, so the
  comparator is taken exactly.  \<open>getSpecificityScore\<close> above is the instance the
  engine uses.
\<close>

definition sortRulesBySpecificity :: "(rule \<Rightarrow> rat) \<Rightarrow> rule list \<Rightarrow> rule list" where
  "sortRulesBySpecificity score rules =
     sortWith (\<lambda>a b. (let scoreA = score a; scoreB = score b in scoreB - scoreA)) rules"

text \<open>
  \<open>QualityRulesEngine.getQualityForImage(imagePath, metadata, defaultQuality)\<close>;
  \<open>rules\<close> is the field \<open>this.rules\<close>, which the constructor fills with the sorted
  rules.  An object spread \<open>{...a, ...b}\<close> is the map \<open>a ++ b\<close>.
\<close>

definition getQualityForImage ::
  "dependencies \<Rightarrow> rule list \<Rightarrow> string \<Rightarrow> metadata option \<Rightarrow> (string \<rightharpoonup> int) \<Rightarrow> (string \<rightharpoonup> int)" where
  "getQualityForImage deps rules imagePath md defaultQuality =
     (let matchingRules = filter (\<lambda>r. ruleMatches deps r imagePath md) rules;
          rulesToApply = rev matchingRules
      in fold (\<lambda>r mergedQuality.
                 (case quality r of
                    None \<Rightarrow> mergedQuality
                  | Some q \<Rightarrow> mergedQuality ++ q))
              rulesToApply defaultQuality)"

text \<open>The constructor followed by one query: \<open>new QualityRulesEngine(rules).getQualityForImage(...)\<close>.\<close>

definition resolveQuality ::
  "(rule \<Rightarrow> rat) \<Rightarrow> dependencies \<Rightarrow> rule list \<Rightarrow> string \<Rightarrow> metadata option \<Rightarrow>
     (string \<rightharpoonup> int) \<Rightarrow> (string \<rightharpoonup> int)" where
  "resolveQuality score deps declared imagePath md defaultQuality =
     getQualityForImage deps (sortRulesBySpecificity score declared) imagePath md defaultQuality"

text \<open>
  Stand-ins for the two libraries in the closed examples below, which use rules without
  a pattern, so that neither function is consulted.
\<close>

definition stubDependencies :: dependencies where
  "stubDependencies = \<lparr> minimatch = (\<lambda>name glob. False), basename = (\<lambda>p. p) \<rparr>"

section \<open>File timestamp checker\<close>

text \<open>
  \<open>FileTimestampChecker\<close>.  \<open>fileStats.stat\<close> is the file system: it gives the
  modification time of a path or fails.  A modification time is a \<open>Date\<close> object, always
  truthy, compared through its number of milliseconds.
\<close>

definition getModTime :: "(string \<Rightarrow> int option) \<Rightarrow> string \<Rightarrow> int option" where
  "getModTime stat filePath = (case stat filePath of None \<Rightarrow> None | Some mtime \<Rightarrow> Some mtime)"

text \<open>The loop over the output paths of \<open>shouldProcess\<close>.\<close>

fun anyOutputStale :: "(string \<Rightarrow> int option) \<Rightarrow> int \<Rightarrow> string list \<Rightarrow> bool" where
  "anyOutputStale stat inputModTime [] = False"
| "anyOutputStale stat inputModTime (outputPath # rest) =
     (case getModTime stat outputPath of
        None \<Rightarrow> True
      | Some outputModTime \<Rightarrow>
          (if inputModTime > outputModTime then True
           else anyOutputStale stat inputModTime rest))"

definition shouldProcess :: "(string \<Rightarrow> int option) \<Rightarrow> string \<Rightarrow> string list \<Rightarrow> bool \<Rightarrow> bool" where
  "shouldProcess stat inputPath outputPaths forceReprocess =
     (if forceReprocess then True
      else (case getModTime stat inputPath of
              None \<Rightarrow> False
            | Some inputModTime \<Rightarrow> anyOutputStale stat inputModTime outputPaths))"

section \<open>Image optimizer: the per-file state machine\<close>

text \<open>The results of \<open>ImageOptimizer.optimizeImage\<close>, strings in the source.\<close>

datatype optimizeResult = Processed | Skipped | Error | LfsPointer | LfsError

fun resultString :: "optimizeResult \<Rightarrow> string" where
  "resultString Processed = ''processed''"
| "resultString Skipped = ''skipped''"
| "resultString Error = ''error''"
| "resultString LfsPointer = ''lfs-pointer''"
| "resultString LfsError = ''lfs-error''"

text \<open>
  What the optimizer sees of the file system: the text of a file (\<open>None\<close> when it cannot
  be read) and its modification time (\<open>None\<close> when \<open>stat\<close> fails).
\<close>

record fileSystem =
  fileText :: "string \<Rightarrow> string option"
  fileMtime :: "string \<Rightarrow> int option"

text \<open>\<open>GitLfsDetector.isGitLfsPointer(filePath)\<close> (src/git/git-lfs-detector.js).\<close>

definition isGitLfsPointer :: "fileSystem \<Rightarrow> string \<Rightarrow> bool" where
  "isGitLfsPointer fs filePath =
     (case fileText fs filePath of
        None \<Rightarrow> False
      | Some content \<Rightarrow> startsWith content ''version https://git-lfs.github.com/spec/v1'')"

text \<open>
  The configuration fields that \<open>generateConfiguredPaths\<close> reads, and the functions of
  Node's \<open>path\<close> module it calls, which are parameters: \<open>parseName f\<close> is
  \<open>path.parse(f).name\<close>, \<open>parseExtLower f\<close> is \<open>path.parse(f).ext.toLowerCase()\<close>.
\<close>

record optimizerConfig =
  formats :: "string list"
  outputDir :: string
  generateThumbnails :: bool

record nodePath =
  parseName :: "string \<Rightarrow> string"
  parseExtLower :: "string \<Rightarrow> string"
  pathJoin :: "string \<Rightarrow> string \<Rightarrow> string"

text \<open>
  \<open>ImageOptimizer.generateConfiguredPaths(filename)\<close>: the object \<open>paths\<close> as the list
  of its entries in insertion order, so that \<open>Object.values(paths)\<close> is \<open>map snd\<close>.
\<close>

definition generateConfiguredPaths ::
  "optimizerConfig \<Rightarrow> nodePath \<Rightarrow> string \<Rightarrow> (string \<times> string) list" where
  "generateConfiguredPaths config path filename =
     (let name = parseName path filename;
          ext = parseExtLower path filename;
          paths0 = [];
          paths1 = (if ''webp'' \<in> set (formats config)
                    then paths0 @ [(''webp'', pathJoin path (outputDir config) (name @ ''.webp''))]
                    else paths0);
          paths2 = (if ''avif'' \<in> set (formats config)
                    then paths1 @ [(''avif'', pathJoin path (outputDir config) (name @ ''.avif''))]
                    else paths1);
          paths3 = (if ''original'' \<in> set (formats config) \<or> ''jpeg'' \<in> set (formats config) \<or>
                       ''png'' \<in> set (formats config)
                    then (let outputExt =
                                (if ext = ''.jpeg'' \<or> ext = ''.jpg''
                                 then (if ''jpeg'' \<in> set (formats config) then ''.jpg'' else ext)
                                 else if ext = ''.png'' then ''.png'' else ext)
                          in paths2 @ [(''original'',
                                        pathJoin path (outputDir config) (name @ outputExt))])
                    else paths2)
      in if generateThumbnails config
         then paths3 @ [(''thumbnail'', pathJoin path (outputDir config) (name @ ''-thumb.webp''))]
         else paths3)"

text \<open>
  The collaborators of one call of \<open>optimizeImage\<close>: the file system before any pull;
  \<open>pullFile\<close>, which reports success and leaves a new file system; and \<open>tryProcess\<close>,
  which runs the body of the \<open>try\<close> block (directory creation, copy or codec call) and
  says whether it finished without an exception.  Every normal exit of that block returns
  \<open>'processed'\<close> and its \<open>catch\<close> returns \<open>'error'\<close>.
\<close>

record optimizerEnv =
  fsBefore :: fileSystem
  pullFile :: "string \<Rightarrow> bool \<times> fileSystem"
  tryProcess :: "fileSystem \<Rightarrow> string \<Rightarrow> string \<Rightarrow> bool"

record optimizeOptions =
  forceReprocess :: bool
  pullLfs :: bool

text \<open>The part of \<open>optimizeImage\<close> after the pointer check, on the file system \<open>fs\<close>.\<close>

definition optimizeAfterLfs ::
  "optimizerConfig \<Rightarrow> nodePath \<Rightarrow> optimizerEnv \<Rightarrow> fileSystem \<Rightarrow> string \<Rightarrow> string \<Rightarrow>
     optimizeOptions \<Rightarrow> optimizeResult" where
  "optimizeAfterLfs config path env fs inputPath filename options =
     (let paths = generateConfiguredPaths config path filename;
          outputPaths = map snd paths;
          needsProcessing = shouldProcess (fileMtime fs) inputPath outputPaths
                              (forceReprocess options)
      in if \<not> needsProcessing then Skipped
         else if tryProcess env fs inputPath filename then Processed
         else Error)"

text \<open>\<open>ImageOptimizer.optimizeImage(inputPath, filename, options)\<close> (src/core/image-optimizer.js).\<close>

definition optimizeImage ::
  "optimizerConfig \<Rightarrow> nodePath \<Rightarrow> optimizerEnv \<Rightarrow> string \<Rightarrow> string \<Rightarrow> optimizeOptions \<Rightarrow>
     optimizeResult" where
  "optimizeImage config path env inputPath filename options =
     (if isGitLfsPointer (fsBefore env) inputPath then
        (if pullLfs options then
           (let pullResult = pullFile env inputPath
            in if \<not> fst pullResult then LfsError
               else if isGitLfsPointer (snd pullResult) inputPath then LfsError
               else optimizeAfterLfs config path env (snd pullResult) inputPath filename options)
         else LfsPointer)
      else optimizeAfterLfs config path env (fsBefore env) inputPath filename options)"

text \<open>
  For the closed examples: the default configuration of the optimizer's legacy
  constructor, a file system on which no path exists, collaborators on a given file
  system (no pull succeeds, the codec never fails), and a stand-in for Node's \<open>path\<close>.
\<close>

definition defaultConfig :: optimizerConfig where
  "defaultConfig = \<lparr> formats = [''webp'', ''avif'', ''original''], outputDir = ''optimized'',
                      generateThumbnails = True \<rparr>"

definition emptyFileSystem :: fileSystem where
  "emptyFileSystem = \<lparr> fileText = (\<lambda>p. None), fileMtime = (\<lambda>p. None) \<rparr>"

definition collaboratorsOn :: "fileSystem \<Rightarrow> optimizerEnv" where
  "collaboratorsOn fs = \<lparr> fsBefore = fs, pullFile = (\<lambda>p. (False, fs)),
                           tryProcess = (\<lambda>fs' inputPath filename. True) \<rparr>"

definition stubPath :: nodePath where
  "stubPath = \<lparr> parseName = (\<lambda>f. f), parseExtLower = (\<lambda>f. []),
                 pathJoin = (\<lambda>a b. a @ ''/'' @ b) \<rparr>"

section \<open>Error logger and error recovery manager\<close>

text \<open>
  A thrown error with the two fields the manager reads.  The context object of a log
  call has a \<open>file\<close>, perhaps an \<open>attempt\<close> and perhaps a \<open>type\<close>.
\<close>

record jsError =
  message :: "string option"
  code :: "string option"

record logContext =
  contextFile :: "string option"
  contextAttempt :: "int option"
  contextType :: "string option"

text \<open>One entry of the log; the timestamp and the stack trace are left out.\<close>

record errorEntry =
  entryFile :: "string option"
  entryError :: jsError
  entryContext :: logContext
  retryCount :: int

text \<open>
  The mutable state of the manager, of its logger and of its persistence layer, and
  three traces: the delays slept, the file names announced to the progress manager, and
  the file names handed to the optimizer.  A file on disk is \<open>None\<close> while it does
  not exist.  Reads, writes and deletions of the two files succeed in the model (deleting
  a missing file is the \<open>ENOENT\<close> case, which the source swallows).
\<close>

record jobState =
  version :: string
  checkpointProcessedCount :: "int option"
  progressProcessed :: "int option"
  filesProcessed :: "(string \<times> string) list option"

record managerState =
  loggerErrors :: "errorEntry list"
  errorLogFile :: "errorEntry list option"
  stateFile :: "jobState option"
  processedFiles :: "(string \<times> string) list"
  sleeps :: "jsNumber list"
  progressFilenames :: "string list"
  optimizerCalls :: "string list"

text \<open>\<open>ErrorLogger.log(file, error, context)\<close> (src/utils/error-logger.js).\<close>

definition logError :: "string option \<Rightarrow> jsError \<Rightarrow> logContext \<Rightarrow> managerState \<Rightarrow> managerState" where
  "logError file error context st =
     (let errorEntry = \<lparr> entryFile = file, entryError = error, entryContext = context,
                         retryCount = orZero (contextAttempt context) \<rparr>
      in st \<lparr> loggerErrors := loggerErrors st @ [errorEntry],
              errorLogFile := Some ((case errorLogFile st of None \<Rightarrow> [] | Some ls \<Rightarrow> ls)
                                     @ [errorEntry]) \<rparr>)"

text \<open>The options of the constructor and the fields it sets.\<close>

record managerOptions =
  optContinueOnError :: "bool option"
  optMaxRetries :: "jsNumber option"
  optRetryDelay :: "jsNumber option"
  optExponentialBackoff :: "bool option"

record manager =
  continueOnError :: bool
  maxRetries :: jsNumber
  retryDelay :: jsNumber
  exponentialBackoff :: bool

definition newErrorRecoveryManager :: "managerOptions \<Rightarrow> manager" where
  "newErrorRecoveryManager options =
     \<lparr> continueOnError = (case optContinueOnError options of None \<Rightarrow> False | Some b \<Rightarrow> b),
       maxRetries = (if truthyJsNumber (optMaxRetries options) then the (optMaxRetries options)
                     else Num 3),
       retryDelay = (if truthyJsNumber (optRetryDelay options) then the (optRetryDelay options)
                     else Num 1000),
       exponentialBackoff = (optExponentialBackoff options \<noteq> Some False) \<rparr>"

definition retryableErrors :: "string list" where
  "retryableErrors = [''ENOENT'', ''EBUSY'', ''ETIMEDOUT'', ''ECONNRESET'', ''ENOTFOUND'']"

definition isRetryable :: "jsError \<Rightarrow> bool" where
  "isRetryable error =
     ((case code error of None \<Rightarrow> False | Some c \<Rightarrow> c \<in> set retryableErrors) \<or>
      (truthyString (message error) \<and> includesStr (the (message error)) ''LFS''))"

text \<open>The constant \<open>delay\<close> of the loop body.\<close>

definition retryDelayFor :: "manager \<Rightarrow> int \<Rightarrow> jsNumber" where
  "retryDelayFor m attempt =
     (if exponentialBackoff m then jsTimes (retryDelay m) (mathPow2 (attempt - 1))
      else retryDelay m)"

text \<open>
  What a call gives back: the returned object, or the error it throws.  The operation is
  called once per attempt; \<open>operation n\<close> is what its \<open>n\<close>-th call does.
\<close>

record 'r recoveryResult =
  success :: bool
  result :: "'r option"
  error :: "jsError option"
  attempts :: jsNumber

datatype 'a completion = Returned 'a | Thrown jsError

text \<open>
  \<open>ErrorRecoveryManager.processWithRecovery(operation, context)\<close>
  (src/state/error-recovery-manager.js): the \<open>for\<close> loop from the attempt \<open>attempt\<close> on,
  and the \<open>return\<close> behind it.  The limit is whatever truthy number the constructor
  kept; under an infinite limit the loop need not end, so the result is optional and
  \<open>None\<close> stands for a call that never returns.
\<close>

partial_function (option) attemptLoop ::
  "manager \<Rightarrow> (int \<Rightarrow> jsError + 'r) \<Rightarrow> logContext \<Rightarrow> int \<Rightarrow> jsError option \<Rightarrow> managerState \<Rightarrow>
     (managerState \<times> 'r recoveryResult completion) option" where
  "attemptLoop m operation context attempt lastError st =
     (if withinLimit attempt (maxRetries m) then
        (case operation attempt of
           Inr r \<Rightarrow>
             Some (st, Returned \<lparr> success = True, result = Some r, error = None,
                                   attempts = Num (of_int attempt) \<rparr>)
         | Inl e \<Rightarrow>
             (if \<not> isRetryable e \<or> Num (of_int attempt) = maxRetries m then
                (if continueOnError m
                 then Some (logError (contextFile context) e
                              (context \<lparr> contextAttempt := Some attempt \<rparr>) st,
                            Returned \<lparr> success = False, result = None, error = Some e,
                                        attempts = Num (of_int attempt) \<rparr>)
                 else Some (logError (contextFile context) e
                              (context \<lparr> contextAttempt := Some attempt \<rparr>) st,
                            Thrown e))
              else attemptLoop m operation context (attempt + 1) (Some e)
                     (st \<lparr> sleeps := sleeps st @ [retryDelayFor m attempt] \<rparr>)))
      else Some (st, Returned \<lparr> success = False, result = None, error = lastError,
                                 attempts = maxRetries m \<rparr>))"

definition processWithRecovery ::
  "manager \<Rightarrow> (int \<Rightarrow> jsError + 'r) \<Rightarrow> logContext \<Rightarrow> managerState \<Rightarrow>
     (managerState \<times> 'r recoveryResult completion) option" where
  "processWithRecovery m operation context st = attemptLoop m operation context 1 None st"

text \<open>
  The state of a manager right after its constructor, on a disk that has neither file; and
  an operation in the manner of the repository's tests (\<open>mockRejectedValueOnce\<close>,
  \<open>mockResolvedValue\<close>): its first calls do what \<open>outcomes\<close> lists, every later call
  does \<open>final\<close>.
\<close>

definition freshState :: managerState where
  "freshState = \<lparr> loggerErrors = [], errorLogFile = None, stateFile = None,
                   processedFiles = [], sleeps = [], progressFilenames = [],
                   optimizerCalls = [] \<rparr>"

definition mockOperation :: "(jsError + 'r) list \<Rightarrow> (jsError + 'r) \<Rightarrow> int \<Rightarrow> jsError + 'r" where
  "mockOperation outcomes final n =
     (if 1 \<le> n \<and> nat n \<le> length outcomes then outcomes ! (nat n - 1) else final)"


definition timeoutError :: jsError where
  "timeoutError = \<lparr> message = Some ''Timeout'', code = Some ''ETIMEDOUT'' \<rparr>"

definition testContext :: logContext where
  "testContext = \<lparr> contextFile = Some ''test.png'', contextAttempt = None, contextType = None \<rparr>"


section \<open>Checkpoints and the batch job\<close>

text \<open>\<open>Map.prototype.set\<close> on the ledger, a map kept in insertion order.\<close>

fun mapSet :: "string \<Rightarrow> string \<Rightarrow> (string \<times> string) list \<Rightarrow> (string \<times> string) list" where
  "mapSet k v [] = [(k, v)]"
| "mapSet k v ((k', v') # kvs) = (if k = k' then (k, v) # kvs else (k', v') # mapSet k v kvs)"

definition recordProcessedFile :: "string \<Rightarrow> string \<Rightarrow> managerState \<Rightarrow> managerState" where
  "recordProcessedFile filePath status st =
     st \<lparr> processedFiles := mapSet filePath status (processedFiles st) \<rparr>"

text \<open>
  \<open>ErrorRecoveryManager.saveState\<close> with \<open>StatePersistenceManager.save\<close>: the file is
  overwritten with version \<open>'1.0'\<close>, the ledger and its size; the persistence layer
  writes no \<open>checkpoint\<close> field.
\<close>

definition saveState :: "managerState \<Rightarrow> managerState" where
  "saveState st =
     st \<lparr> stateFile := Some \<lparr> version = ''1.0'', checkpointProcessedCount = None,
                               progressProcessed = Some (int (length (processedFiles st))),
                               filesProcessed = Some (processedFiles st) \<rparr> \<rparr>"

text \<open>\<open>StatePersistenceManager.load\<close> and \<open>ErrorRecoveryManager.loadState\<close>.\<close>

definition statePersistenceLoad :: "managerState \<Rightarrow> jobState option" where
  "statePersistenceLoad st =
     (case stateFile st of
        None \<Rightarrow> None
      | Some state \<Rightarrow> (if version state \<noteq> ''1.0'' then None else Some state))"

definition loadState :: "managerState \<Rightarrow> jobState option \<times> managerState" where
  "loadState st =
     (let state = statePersistenceLoad st
      in (state,
          (case state of
             None \<Rightarrow> st
           | Some s \<Rightarrow>
               (case filesProcessed s of
                  None \<Rightarrow> st
                | Some files \<Rightarrow>
                    st \<lparr> processedFiles :=
                           fold (\<lambda>file ledger. mapSet (fst file) (snd file) ledger) files
                                (processedFiles st) \<rparr>))))"

text \<open>\<open>ErrorRecoveryManager.clearState\<close> with the two \<open>clear\<close> methods it calls.\<close>

definition clearState :: "managerState \<Rightarrow> managerState" where
  "clearState st =
     st \<lparr> stateFile := None, loggerErrors := [], errorLogFile := None, processedFiles := [] \<rparr>"

text \<open>\<open>Array.prototype.slice(start)\<close>.\<close>

definition slice :: "'a list \<Rightarrow> int \<Rightarrow> 'a list" where
  "slice xs start =
     (if start < 0 then drop (nat (max (int (length xs) + start) 0)) xs
      else drop (nat start) xs)"

record stats =
  processed :: nat
  skipped :: nat
  errors :: nat
  lfsPointers :: nat
  lfsErrors :: nat

text \<open>\<open>ImageOptimizerApp._updateStats\<close>.\<close>

fun updateStats :: "stats \<Rightarrow> optimizeResult \<Rightarrow> stats" where
  "updateStats s Processed = s \<lparr> processed := processed s + 1 \<rparr>"
| "updateStats s Skipped = s \<lparr> skipped := skipped s + 1 \<rparr>"
| "updateStats s Error = s \<lparr> errors := errors s + 1 \<rparr>"
| "updateStats s LfsPointer = s \<lparr> lfsPointers := lfsPointers s + 1 \<rparr>"
| "updateStats s LfsError = s \<lparr> lfsErrors := lfsErrors s + 1 \<rparr>"

text \<open>
  The surroundings of one run of \<open>ImageOptimizerApp.processImages\<close>: the list that
  \<open>_findImageFiles\<close> returns, and for each file what the two calls of the loop body do.
  \<open>qualityRulesEngine.getQualityForImage\<close> throws an error or returns a quality map,
  which only travels on to the optimizer; \<open>optimizer.optimizeImage\<close> throws or returns
  a result.  Creating the output directory and listing the input directory succeed in the
  model.
\<close>

record appEnv =
  imageFiles :: "string list"
  qualityLookup :: "string \<Rightarrow> jsError option"
  optimizeFile :: "string \<Rightarrow> jsError + optimizeResult"

record runOptions =
  runContinueOnError :: bool
  resumeFlag :: bool

definition processingErrorContext :: logContext where
  "processingErrorContext =
     \<lparr> contextFile = None, contextAttempt = None, contextType = Some ''processing_error'' \<rparr>"

text \<open>
  The body of the inner \<open>try\<close> for the file at index \<open>i\<close> of the files to process:
  it ends normally (\<open>None\<close>) or throws.  The call of the optimizer is recorded in
  \<open>optimizerCalls\<close>.
\<close>

definition tryFile ::
  "appEnv \<Rightarrow> bool \<Rightarrow> nat \<Rightarrow> string \<Rightarrow> stats \<times> managerState \<Rightarrow> (stats \<times> managerState) \<times> jsError option" where
  "tryFile env continue i file sst =
     (case qualityLookup env file of
        Some thrown \<Rightarrow> (sst, Some thrown)
      | None \<Rightarrow>
          (let st0 = (snd sst) \<lparr> optimizerCalls := optimizerCalls (snd sst) @ [file] \<rparr>
           in (case optimizeFile env file of
                 Inl thrown \<Rightarrow> ((fst sst, st0), Some thrown)
               | Inr res \<Rightarrow>
                   (let stats1 = updateStats (fst sst) res;
                        failure = \<lparr> message = Some (''Failed to process '' @ file),
                                    code = None \<rparr>;
                        st1 = (if res = Error
                               then logError (Some file) failure processingErrorContext st0
                               else st0)
                    in if res = Error \<and> \<not> continue then ((stats1, st1), Some failure)
                       else (let st2 = recordProcessedFile file (resultString res) st1;
                                 st3 = (if i mod 10 = 0 then saveState st2 else st2)
                             in ((stats1, st3), None))))))"

text \<open>The \<open>for\<close> loop over the files to process, with the inner \<open>catch\<close>.\<close>

fun fileLoop ::
  "appEnv \<Rightarrow> bool \<Rightarrow> nat \<Rightarrow> string list \<Rightarrow> stats \<times> managerState \<Rightarrow>
     (stats \<times> managerState) \<times> jsError option" where
  "fileLoop env continue i [] sst = (sst, None)"
| "fileLoop env continue i (file # rest) sst =
     (let announced = (fst sst, (snd sst) \<lparr> progressFilenames :=
                                               progressFilenames (snd sst) @ [file] \<rparr>)
      in (case tryFile env continue i file announced of
            (sst1, None) \<Rightarrow> fileLoop env continue (i + 1) rest sst1
          | (sst1, Some thrown) \<Rightarrow>
              (let stats2 = (fst sst1) \<lparr> errors := errors (fst sst1) + 1 \<rparr>;
                   st2 = logError (Some file) thrown processingErrorContext (snd sst1)
               in if \<not> continue then ((stats2, st2), Some thrown)
                  else fileLoop env continue (i + 1) rest (stats2, st2))))"

definition startIndexOf :: "jobState \<Rightarrow> int" where
  "startIndexOf savedState =
     (if truthyNumber (checkpointProcessedCount savedState)
      then the (checkpointProcessedCount savedState)
      else if truthyNumber (progressProcessed savedState)
      then the (progressProcessed savedState)
      else 0)"

definition emptyStats :: stats where
  "emptyStats = \<lparr> processed = 0, skipped = 0, errors = 0, lfsPointers = 0, lfsErrors = 0 \<rparr>"

text \<open>
  The constant \<open>filesToProcess\<close> of \<open>processImages\<close>: the enumeration without its
  first \<open>startIndex\<close> files.
\<close>

definition filesToProcess :: "appEnv \<Rightarrow> runOptions \<Rightarrow> managerState \<Rightarrow> string list" where
  "filesToProcess env options st =
     (let savedState = fst (loadState st);
          startIndex = (if resumeFlag options \<and> savedState \<noteq> None
                        then startIndexOf (the savedState) else 0)
      in slice (imageFiles env) startIndex)"

text \<open>\<open>ImageOptimizerApp.processImages(options)\<close>.\<close>

definition processImages ::
  "appEnv \<Rightarrow> runOptions \<Rightarrow> managerState \<Rightarrow> managerState \<times> stats completion" where
  "processImages env options st =
     (if length (imageFiles env) = 0 then (st, Returned emptyStats)
      else
        (case fileLoop env (runContinueOnError options) 0 (filesToProcess env options st)
                (emptyStats, snd (loadState st)) of
           ((stats1, st1), Some thrown) \<Rightarrow>
             (logError (Some ''FATAL'') thrown
                \<lparr> contextFile = None, contextAttempt = None, contextType = Some ''fatal'' \<rparr> st1,
              Thrown thrown)
         | ((stats1, st1), None) \<Rightarrow>
             (if errors stats1 = 0 then (clearState st1, Returned stats1)
              else (saveState st1, Returned stats1))))"

text \<open>
  For the closed examples: a quality lookup that never throws, an optimizer that does
  the same for every file, an enumeration of ten files and a checkpoint written after
  five of them.  And whether a file ends in the job's error count: one of the two calls
  throws, or the result is \<open>'error'\<close>.
\<close>

definition lookupSucceeds :: "string \<Rightarrow> jsError option" where
  "lookupSucceeds file = None"

definition sameForEveryFile :: "jsError + optimizeResult \<Rightarrow> string \<Rightarrow> jsError + optimizeResult" where
  "sameForEveryFile outcome file = outcome"

definition tenFiles :: "string list" where
  "tenFiles = [''f0'', ''f1'', ''f2'', ''f3'', ''f4'', ''f5'', ''f6'', ''f7'', ''f8'', ''f9'']"

definition checkpointAtFive :: jobState where
  "checkpointAtFive =
     \<lparr> version = ''1.0'', checkpointProcessedCount = None, progressProcessed = Some 5,
       filesProcessed = Some [] \<rparr>"

definition countsAsError :: "appEnv \<Rightarrow> string \<Rightarrow> bool" where
  "countsAsError env file =
     (qualityLookup env file \<noteq> None \<or>
      (case optimizeFile env file of Inl thrown \<Rightarrow> True | Inr res \<Rightarrow> res = Error))"

text \<open>
  The files a loop over \<open>files\<close> takes up, read off the loop: all of them when it
  continues on error, otherwise those up to and including the first that fails.  It serves
  the statements and is no part of the program.
\<close>

definition takenUp :: "appEnv \<Rightarrow> bool \<Rightarrow> string list \<Rightarrow> string list" where
  "takenUp env continue files =
     (if continue then files
      else takeWhile (\<lambda>file. \<not> countsAsError env file) files @
           take 1 (dropWhile (\<lambda>file. \<not> countsAsError env file) files))"

text \<open>The error log is there, on disk and in memory, with at least one entry in memory.\<close>

definition errorLogKept :: "managerState \<Rightarrow> bool" where
  "errorLogKept st = (errorLogFile st \<noteq> None \<and> loggerErrors st \<noteq> [])"

section \<open>Proofs\<close>

subsection \<open>Facts about the string operations\<close>

lemma startsWith_prefix: "startsWith s t = prefix t s"
  by (induction s t rule: startsWith.induct) auto

lemma includesStr_sublist: "includesStr s t = sublist t s"
proof (induction s)
  case Nil
  then show ?case by simp
next
  case (Cons a s)
  then show ?case
    by (simp add: startsWith_prefix sublist_Cons_right)
qed

lemma endsWith_suffix: "endsWith s t = suffix t s"
proof
  assume "endsWith s t"
  then have "s = take (length s - length t) s @ t"
    by (metis append_take_drop_id endsWith_def)
  then show "suffix t s"
    by (metis suffixI)
next
  assume "suffix t s"
  then obtain u where "s = u @ t"
    by (auto simp: suffix_def)
  then show "endsWith s t"
    by (simp add: endsWith_def)
qed

subsection \<open>Directory matching\<close>

lemma matchesDirectory_partial_name_example:
  "\<not> matchesDirectory ''assets/images-backup/file.png'' ''assets/images/''"
  by (simp add: matchesDirectory_def replaceBackslashes_def backslash_def endsWith_def)

lemma matchesDirectory_separator_example:
  "matchesDirectory (''assets'' @ [backslash] @ ''images'' @ [backslash] @ ''a.png'')
     ''assets/images''"
  by (simp add: matchesDirectory_def replaceBackslashes_def backslash_def endsWith_def)

text \<open>
  Claim C1, as the code has it.  The directory match normalises both strings to forward
  slashes, appends a slash to the rule directory when it has none, and holds exactly when
  the normalised path contains that text somewhere.  The matched text always ends in a
  slash, so it ends where a path segment ends; nothing is required of the character in
  front of it.
\<close>

theorem matchesDirectory_contains_dir_with_slash:
  "(let dirWithSlash = (if endsWith (replaceBackslashes d) ''/'' then replaceBackslashes d
                        else replaceBackslashes d @ ''/'')
    in endsWith dirWithSlash ''/'' \<and>
       matchesDirectory p d =
         (\<exists>before after. replaceBackslashes p = before @ dirWithSlash @ after))"
  by (auto simp: matchesDirectory_def Let_def includesStr_sublist sublist_def endsWith_def)

text \<open>
  Claim C1 as the specification states it fails: the path \<open>my-images/file.png\<close> has no
  segment named \<open>images\<close>, its first segment merely ends in that name, and it satisfies
  a rule for \<open>images/\<close>.
\<close>

theorem matchesDirectory_not_segment_exact:
  "matchesDirectory ''my-images/file.png'' ''images/'' \<and>
   ''images'' \<notin> set (pathSegments ''my-images/file.png'')"
  by (simp add: matchesDirectory_def replaceBackslashes_def backslash_def endsWith_def
        pathSegments_def)

subsection \<open>Rounding to doubles\<close>

text \<open>
  One rounding moves a value by at most the fraction \<open>2^-53\<close> of its magnitude.  A
  score is built by at most ten rounded operations on values below \<open>2^30\<close>, so it
  differs from the exact sum by less than one fortieth, while two different exact sums lie
  at least a tenth apart.
\<close>

declare floorLog2.simps [simp del]

lemma roundHalfEven_error: "\<bar>of_int (roundHalfEven q) - q\<bar> \<le> 1 / 2"
  unfolding roundHalfEven_def Let_def by (auto simp: abs_if) linarith+

lemma floorLog2_bounds:
  "0 < n \<Longrightarrow> 0 \<le> floorLog2 n \<and> 2 ^ nat (floorLog2 n) \<le> n \<and> n < 2 * 2 ^ nat (floorLog2 n)"
proof (induction n rule: floorLog2.induct)
  case (1 n)
  show ?case
  proof (cases "n \<le> 1")
    case True
    then have "n = 1" using "1.prems" by simp
    then show ?thesis by (simp add: floorLog2.simps)
  next
    case False
    then have h: "0 < n div 2" by simp
    from "1.IH" [OF False h] have
      ih: "0 \<le> floorLog2 (n div 2)" "2 ^ nat (floorLog2 (n div 2)) \<le> n div 2"
          "n div 2 < 2 * 2 ^ nat (floorLog2 (n div 2))"
      by auto
    have e: "floorLog2 n = 1 + floorLog2 (n div 2)"
      using False by (subst floorLog2.simps) simp
    have p: "(2::int) ^ nat (1 + floorLog2 (n div 2)) = 2 * 2 ^ nat (floorLog2 (n div 2))"
      using ih(1) by (simp add: nat_add_distrib)
    show ?thesis
      unfolding e p using ih by auto
  qed
qed

lemma binaryExponent_lower:
  assumes "x \<noteq> 0"
  shows "2 powi (binaryExponent x) \<le> \<bar>x\<bar>"
proof -
  obtain a b where q: "quotient_of \<bar>x\<bar> = (a, b)" by (cases "quotient_of \<bar>x\<bar>")
  have b: "0 < b" using q by (rule quotient_of_denom_pos)
  have x: "\<bar>x\<bar> = of_int a / of_int b" using q by (rule quotient_of_div)
  have "0 < \<bar>x\<bar>" using assms by simp
  then have a: "0 < a" using x b by (simp add: zero_less_divide_iff)
  let ?la = "floorLog2 a" and ?lb = "floorLog2 b"
  let ?d = "?la - ?lb"
  note ba = floorLog2_bounds [OF a] and bb = floorLog2_bounds [OF b]
  show ?thesis
  proof (cases "2 powi ?d \<le> \<bar>x\<bar>")
    case True
    then show ?thesis by (simp add: binaryExponent_def q)
  next
    case False
    then have e: "binaryExponent x = ?d - 1" by (simp add: binaryExponent_def q)
    have A: "(2::rat) ^ nat ?la \<le> of_int a"
    proof -
      have "(of_int (2 ^ nat ?la) :: rat) \<le> of_int a" using ba by (simp only: of_int_le_iff)
      then show ?thesis by simp
    qed
    have B: "(of_int b :: rat) \<le> 2 * 2 ^ nat ?lb"
    proof -
      have "b \<le> 2 * 2 ^ nat ?lb" using bb by simp
      then have "(of_int b :: rat) \<le> of_int (2 * 2 ^ nat ?lb)" by (simp only: of_int_le_iff)
      then show ?thesis by simp
    qed
    have "(2::rat) powi (?d - 1) = 2 powi (?la - (?lb + 1))" by (simp add: algebra_simps)
    also have "\<dots> = 2 powi ?la / 2 powi (?lb + 1)"
      by (rule power_int_diff) simp
    also have "\<dots> = 2 ^ nat ?la / (2 * 2 ^ nat ?lb)"
      using ba bb by (simp add: power_int_def nat_add_distrib)
    also have "\<dots> \<le> of_int a / (2 * 2 ^ nat ?lb)"
      using A by (simp add: divide_right_mono)
    also have "\<dots> \<le> of_int a / of_int b"
      using B a b by (simp add: frac_le)
    finally show ?thesis using e x by simp
  qed
qed

lemma binaryExponent_upper:
  assumes "x \<noteq> 0"
  shows "\<bar>x\<bar> < 2 powi (binaryExponent x + 1)"
proof -
  obtain a b where q: "quotient_of \<bar>x\<bar> = (a, b)" by (cases "quotient_of \<bar>x\<bar>")
  have b: "0 < b" using q by (rule quotient_of_denom_pos)
  have x: "\<bar>x\<bar> = of_int a / of_int b" using q by (rule quotient_of_div)
  have "0 < \<bar>x\<bar>" using assms by simp
  then have a: "0 < a" using x b by (simp add: zero_less_divide_iff)
  let ?la = "floorLog2 a" and ?lb = "floorLog2 b"
  let ?d = "?la - ?lb"
  note ba = floorLog2_bounds [OF a] and bb = floorLog2_bounds [OF b]
  show ?thesis
  proof (cases "2 powi ?d \<le> \<bar>x\<bar>")
    case False
    then show ?thesis by (simp add: binaryExponent_def q)
  next
    case True
    then have e: "binaryExponent x = ?d" by (simp add: binaryExponent_def q)
    have A: "(of_int a :: rat) < 2 * 2 ^ nat ?la"
    proof -
      have "(of_int a :: rat) < of_int (2 * 2 ^ nat ?la)" using ba by (simp only: of_int_less_iff)
      then show ?thesis by simp
    qed
    have B: "(2::rat) ^ nat ?lb \<le> of_int b"
    proof -
      have "(of_int (2 ^ nat ?lb) :: rat) \<le> of_int b" using bb by (simp only: of_int_le_iff)
      then show ?thesis by simp
    qed
    have "of_int a / of_int b < (2 * 2 ^ nat ?la) / (of_int b :: rat)"
      using A b by (simp add: divide_strict_right_mono)
    also have "\<dots> \<le> (2 * 2 ^ nat ?la) / 2 ^ nat ?lb"
      using B by (simp add: frac_le)
    also have "\<dots> = 2 powi (?la + 1) / 2 powi ?lb"
      using ba bb by (simp add: power_int_def nat_add_distrib)
    also have "\<dots> = 2 powi (?la + 1 - ?lb)"
      by (rule power_int_diff [symmetric]) simp
    also have "\<dots> = 2 powi (?d + 1)" by (simp add: algebra_simps)
    finally show ?thesis using e x by simp
  qed
qed

lemma roundDouble_error: "\<bar>roundDouble x - x\<bar> \<le> \<bar>x\<bar> / 2 ^ 53"
proof (cases "x = 0")
  case True
  then show ?thesis by (simp add: roundDouble_def)
next
  case False
  let ?e = "binaryExponent x"
  let ?ulp = "(2::rat) powi (?e - 52)"
  have pos: "0 < ?ulp" by simp
  have "roundDouble x - x = (of_int (roundHalfEven (x / ?ulp)) - x / ?ulp) * ?ulp"
    using False pos by (simp add: roundDouble_def Let_def algebra_simps)
  then have "\<bar>roundDouble x - x\<bar> = \<bar>of_int (roundHalfEven (x / ?ulp)) - x / ?ulp\<bar> * ?ulp"
    using pos by (simp add: abs_mult)
  also have "\<dots> \<le> 1 / 2 * ?ulp"
    using roundHalfEven_error [of "x / ?ulp"] pos by (simp add: mult_right_mono)
  also have "\<dots> = 2 powi ?e / 2 ^ 53"
  proof -
    have "(2::rat) powi (?e - 52) = 2 powi ?e / 2 ^ 52"
      by (simp add: power_int_diff)
    then show ?thesis by simp
  qed
  also have "\<dots> \<le> \<bar>x\<bar> / 2 ^ 53"
    using binaryExponent_lower [OF False] by (simp add: divide_right_mono)
  finally show ?thesis .
qed

lemma roundDouble_slack:
  assumes "\<bar>y\<bar> \<le> 2 ^ 30 + 1"
  shows "\<bar>roundDouble y - y\<bar> \<le> roundingSlack"
proof -
  have "\<bar>roundDouble y - y\<bar> \<le> \<bar>y\<bar> / 2 ^ 53" by (rule roundDouble_error)
  also have "\<dots> \<le> (2 ^ 30 + 1) / 2 ^ 53" using assms by (simp add: divide_right_mono)
  finally show ?thesis by (simp add: roundingSlack_def)
qed

lemma jsAdd_step:
  assumes "0 \<le> a" "0 \<le> b" "a + b \<le> 2 ^ 30"
      and "\<bar>a' - a\<bar> \<le> k * roundingSlack" "\<bar>b' - b\<bar> \<le> j * roundingSlack"
      and "k + j \<le> 16" "0 \<le> k" "0 \<le> j"
  shows "\<bar>jsAdd a' b' - (a + b)\<bar> \<le> (k + j + 1) * roundingSlack"
proof -
  have small: "(k + j) * roundingSlack \<le> 1"
  proof -
    have "(k + j) * roundingSlack \<le> 16 * roundingSlack"
      using assms(6) by (simp add: mult_right_mono roundingSlack_def)
    also have "\<dots> \<le> 1" by (simp add: roundingSlack_def)
    finally show ?thesis .
  qed
  have d: "\<bar>(a' + b') - (a + b)\<bar> \<le> (k + j) * roundingSlack"
  proof -
    have "\<bar>(a' + b') - (a + b)\<bar> \<le> \<bar>a' - a\<bar> + \<bar>b' - b\<bar>" by linarith
    also have "\<dots> \<le> k * roundingSlack + j * roundingSlack"
      using assms(4,5) by linarith
    finally show ?thesis by (simp add: distrib_right)
  qed
  then have "\<bar>a' + b'\<bar> \<le> 2 ^ 30 + 1"
    using assms(1,2,3) small by linarith
  then have r: "\<bar>roundDouble (a' + b') - (a' + b')\<bar> \<le> roundingSlack"
    by (rule roundDouble_slack)
  have "\<bar>roundDouble (a' + b') - (a + b)\<bar>
          \<le> \<bar>roundDouble (a' + b') - (a' + b')\<bar> + \<bar>(a' + b') - (a + b)\<bar>"
    by linarith
  also have "\<dots> \<le> roundingSlack + (k + j) * roundingSlack"
    using r d by linarith
  finally show ?thesis
    unfolding jsAdd_def by (simp add: distrib_right)
qed

lemma oneTenth_error: "\<bar>oneTenth - 1 / 10\<bar> \<le> (1 / 10) / 2 ^ 53"
  using roundDouble_error [of "1 / 10"] by (simp add: oneTenth_def)

lemma jsMul_tenth_step:
  assumes "of_nat n / 10 \<le> (2 ^ 30 :: rat)"
  shows "\<bar>jsMul (of_nat n) oneTenth - of_nat n / 10\<bar> \<le> 2 * roundingSlack"
proof -
  let ?n = "of_nat n :: rat"
  let ?u = "(1 / 2 ^ 53 :: rat)"
  have "?n * oneTenth - ?n / 10 = ?n * (oneTenth - 1 / 10)"
    by (simp add: right_diff_distrib)
  then have "\<bar>?n * oneTenth - ?n / 10\<bar> = \<bar>?n\<bar> * \<bar>oneTenth - 1 / 10\<bar>"
    by (simp only: abs_mult)
  also have "\<dots> = ?n * \<bar>oneTenth - 1 / 10\<bar>" by simp
  also have "\<dots> \<le> ?n * ((1 / 10) / 2 ^ 53)"
    by (rule mult_left_mono [OF oneTenth_error]) simp
  also have "\<dots> = (?n / 10) * ?u" by simp
  also have "\<dots> \<le> 2 ^ 30 * ?u"
    by (rule mult_right_mono [OF assms]) simp
  finally have d: "\<bar>?n * oneTenth - ?n / 10\<bar> \<le> 2 ^ 30 * ?u" .
  have u1: "2 ^ 30 * ?u \<le> 1" by simp
  have u2: "2 ^ 30 * ?u \<le> roundingSlack" by (simp add: roundingSlack_def)
  have n0: "0 \<le> ?n / 10" by simp
  have "\<bar>?n * oneTenth\<bar> \<le> \<bar>?n * oneTenth - ?n / 10\<bar> + ?n / 10"
    using n0 by linarith
  also have "\<dots> \<le> 1 + 2 ^ 30" using d u1 assms by linarith
  finally have "\<bar>?n * oneTenth\<bar> \<le> 2 ^ 30 + 1" by simp
  then have r: "\<bar>roundDouble (?n * oneTenth) - ?n * oneTenth\<bar> \<le> roundingSlack"
    by (rule roundDouble_slack)
  have "\<bar>roundDouble (?n * oneTenth) - ?n / 10\<bar>
          \<le> \<bar>roundDouble (?n * oneTenth) - ?n * oneTenth\<bar> + \<bar>?n * oneTenth - ?n / 10\<bar>"
    by linarith
  also have "\<dots> \<le> roundingSlack + roundingSlack"
    using r d u2 by linarith
  finally show ?thesis
    unfolding jsMul_def by simp
qed

lemma roundingSlack_nonneg: "0 \<le> roundingSlack"
  by (simp add: roundingSlack_def)

lemma criteriaCount_le: "criteriaCount r \<le> 3"
  by (simp add: criteriaCount_def)

lemma score_error:
  assumes bp: "truthyString (pattern r) \<longrightarrow> nonWildcardChars (the (pattern r)) \<le> 2 ^ 32"
      and bd: "truthyString (directory r) \<longrightarrow> directoryDepth (the (directory r)) \<le> 2 ^ 32"
  shows "\<bar>getSpecificityScore r - exactScore r\<bar> \<le> 11 * roundingSlack"
proof -
  let ?P = "truthyString (pattern r)" and ?D = "truthyString (directory r)"
  let ?n = "of_nat (nonWildcardChars (the (pattern r))) :: rat"
  let ?d = "of_nat (directoryDepth (the (directory r))) :: rat"
  let ?c = "of_nat (criteriaCount r) :: rat"
  note z = roundingSlack_nonneg
  define s1 where "s1 = (if ?P then jsAdd (jsAdd 0 4) (jsMul ?n oneTenth) else 0)"
  define e1 where "e1 = (if ?P then 4 + ?n / 10 else 0)"
  define s2 where "s2 = (if ?D then jsAdd (jsAdd s1 2) (jsMul ?d oneTenth) else s1)"
  define e2 where "e2 = e1 + (if ?D then 2 + ?d / 10 else 0)"
  define s3 where "s3 = (if hasSizeRule r then jsAdd s2 1 else s2)"
  define e3 where "e3 = e2 + (if hasSizeRule r then 1 else 0)"
  define s4 where "s4 = (if criteriaCount r > 1 then jsAdd s3 (jsMul ?c 2) else s3)"
  define e4 where "e4 = e3 + (if criteriaCount r > 1 then ?c * 2 else 0)"
  have S: "getSpecificityScore r = s4"
    by (simp add: getSpecificityScore_def Let_def s1_def s2_def s3_def s4_def)
  have E: "exactScore r = e4"
    by (simp add: exactScore_def e1_def e2_def e3_def e4_def)
  have n: "?P \<Longrightarrow> 0 \<le> ?n / 10 \<and> ?n / 10 \<le> 429496730 \<and> ?n / 10 \<le> 2 ^ 30"
  proof -
    assume ?P
    then have "nonWildcardChars (the (pattern r)) \<le> 2 ^ 32" using bp by simp
    then have "?n \<le> of_nat (2 ^ 32)" by (simp only: of_nat_le_iff)
    then show ?thesis by simp
  qed
  have d: "?D \<Longrightarrow> 0 \<le> ?d / 10 \<and> ?d / 10 \<le> 429496730 \<and> ?d / 10 \<le> 2 ^ 30"
  proof -
    assume ?D
    then have "directoryDepth (the (directory r)) \<le> 2 ^ 32" using bd by simp
    then have "?d \<le> of_nat (2 ^ 32)" by (simp only: of_nat_le_iff)
    then show ?thesis by simp
  qed
  have st1: "\<bar>s1 - e1\<bar> \<le> 4 * roundingSlack \<and> 0 \<le> e1 \<and> e1 \<le> 429496734"
  proof (cases ?P)
    case False
    then show ?thesis using z by (simp add: s1_def e1_def)
  next
    case True
    have a: "\<bar>jsAdd 0 4 - (0 + 4)\<bar> \<le> (0 + 0 + 1) * roundingSlack"
      by (rule jsAdd_step) simp_all
    have m: "\<bar>jsMul ?n oneTenth - ?n / 10\<bar> \<le> 2 * roundingSlack"
      by (rule jsMul_tenth_step) (use n [OF True] in blast)
    have "\<bar>jsAdd (jsAdd 0 4) (jsMul ?n oneTenth) - (4 + ?n / 10)\<bar> \<le> (1 + 2 + 1) * roundingSlack"
      by (rule jsAdd_step) (use a m n [OF True] in simp_all)
    then show ?thesis using True n [OF True] by (simp add: s1_def e1_def)
  qed
  have st2: "\<bar>s2 - e2\<bar> \<le> 8 * roundingSlack \<and> 0 \<le> e2 \<and> e2 \<le> 858993466"
  proof (cases ?D)
    case False
    then show ?thesis using st1 z by (simp add: s2_def e2_def)
  next
    case True
    have a: "\<bar>jsAdd s1 2 - (e1 + 2)\<bar> \<le> (4 + 0 + 1) * roundingSlack"
      by (rule jsAdd_step) (use st1 in simp_all)
    have m: "\<bar>jsMul ?d oneTenth - ?d / 10\<bar> \<le> 2 * roundingSlack"
      by (rule jsMul_tenth_step) (use d [OF True] in blast)
    have "\<bar>jsAdd (jsAdd s1 2) (jsMul ?d oneTenth) - ((e1 + 2) + ?d / 10)\<bar>
            \<le> (5 + 2 + 1) * roundingSlack"
      by (rule jsAdd_step) (use a m st1 d [OF True] in simp_all)
    then show ?thesis using True st1 d [OF True] by (simp add: s2_def e2_def add.assoc)
  qed
  have st3: "\<bar>s3 - e3\<bar> \<le> 9 * roundingSlack \<and> 0 \<le> e3 \<and> e3 \<le> 858993467"
  proof (cases "hasSizeRule r")
    case False
    then show ?thesis using st2 z by (simp add: s3_def e3_def)
  next
    case True
    have "\<bar>jsAdd s2 1 - (e2 + 1)\<bar> \<le> (8 + 0 + 1) * roundingSlack"
      by (rule jsAdd_step) (use st2 in simp_all)
    then show ?thesis using True st2 by (simp add: s3_def e3_def)
  qed
  have st4: "\<bar>s4 - e4\<bar> \<le> 11 * roundingSlack"
  proof (cases "criteriaCount r > 1")
    case False
    then show ?thesis using st3 z by (simp add: s4_def e4_def)
  next
    case True
    have c: "0 \<le> ?c * 2 \<and> ?c * 2 \<le> 6"
    proof -
      have "?c \<le> of_nat 3" using criteriaCount_le [of r] by (simp only: of_nat_le_iff)
      then show ?thesis by simp
    qed
    then have "\<bar>?c * 2\<bar> \<le> 2 ^ 30 + 1" by simp
    then have m: "\<bar>jsMul ?c 2 - ?c * 2\<bar> \<le> 1 * roundingSlack"
      unfolding jsMul_def using roundDouble_slack by simp
    have "\<bar>jsAdd s3 (jsMul ?c 2) - (e3 + ?c * 2)\<bar> \<le> (9 + 1 + 1) * roundingSlack"
      by (rule jsAdd_step) (use m st3 c in simp_all)
    then show ?thesis using True by (simp add: s4_def e4_def)
  qed
  show ?thesis using st4 S E by simp
qed

lemma roundingSlack_small: "11 * roundingSlack < 1 / 40"
  by (simp add: roundingSlack_def)

lemma score_order_from_exact:
  assumes "truthyString (pattern r) \<longrightarrow> nonWildcardChars (the (pattern r)) \<le> 2 ^ 32"
      and "truthyString (directory r) \<longrightarrow> directoryDepth (the (directory r)) \<le> 2 ^ 32"
      and "truthyString (pattern r') \<longrightarrow> nonWildcardChars (the (pattern r')) \<le> 2 ^ 32"
      and "truthyString (directory r') \<longrightarrow> directoryDepth (the (directory r')) \<le> 2 ^ 32"
      and "exactScore r + 1 / 10 \<le> exactScore r'"
  shows "getSpecificityScore r < getSpecificityScore r'"
  using score_error [OF assms(1,2)] score_error [OF assms(3,4)] assms(5) roundingSlack_small
  by linarith

subsection \<open>Specificity scores\<close>

lemma exactScore_pattern_and_directory:
  assumes "truthyString (pattern r)" "truthyString (directory r)"
  shows "exactScore r =
           of_nat (100 + nonWildcardChars (the (pattern r)) + directoryDepth (the (directory r))
                   + (if hasSizeRule r then 30 else 0)) / 10"
  using assms by (simp add: exactScore_def criteriaCount_def)

lemma exactScore_pattern_only:
  assumes "truthyString (pattern r)" "\<not> truthyString (directory r)" "\<not> hasSizeRule r"
  shows "exactScore r = of_nat (40 + nonWildcardChars (the (pattern r))) / 10"
  using assms by (simp add: exactScore_def criteriaCount_def)

lemma exactScore_directory_only:
  assumes "\<not> truthyString (pattern r)" "truthyString (directory r)" "\<not> hasSizeRule r"
  shows "exactScore r = of_nat (20 + directoryDepth (the (directory r))) / 10"
  using assms by (simp add: exactScore_def criteriaCount_def)

lemma tenths_gap:
  fixes a b :: nat
  assumes "a < b"
  shows "(of_nat a / 10 :: rat) + 1 / 10 \<le> of_nat b / 10"
proof -
  have "a + 1 \<le> b" using assms by simp
  then have "(of_nat (a + 1) :: rat) \<le> of_nat b" by (simp only: of_nat_le_iff)
  then show ?thesis by simp
qed

text \<open>
  Claim C2, as the code has it.  Let \<open>r1\<close> have a pattern and a directory, and let
  every count that enters a score be at most \<open>2^32\<close>.  Against a rule \<open>r2\<close> with a
  pattern alone, the score the engine computes in doubles for \<open>r1\<close> is strictly the
  greater when the pattern of \<open>r2\<close> has fewer non-wildcard characters than 60 plus the
  two bonus counts of \<open>r1\<close> (90 when \<open>r1\<close> also has a size bound), and strictly the
  smaller when it has more.  Against a rule with a directory alone the same holds with 80
  (110) and the depth of that directory.  At the threshold itself the exact sums are
  equal and rounding decides the order, so nothing is stated there.
\<close>

theorem combined_rule_outranks_off_threshold:
  assumes "truthyString (pattern r1)" and "truthyString (directory r1)"
      and "nonWildcardChars (the (pattern r1)) \<le> 2 ^ 32"
      and "directoryDepth (the (directory r1)) \<le> 2 ^ 32"
  shows "(truthyString (pattern r2) \<and> \<not> truthyString (directory r2) \<and> \<not> hasSizeRule r2 \<and>
          nonWildcardChars (the (pattern r2)) \<le> 2 ^ 32 \<longrightarrow>
            (nonWildcardChars (the (pattern r2)) <
               60 + nonWildcardChars (the (pattern r1)) + directoryDepth (the (directory r1))
                  + (if hasSizeRule r1 then 30 else 0) \<longrightarrow>
             getSpecificityScore r2 < getSpecificityScore r1) \<and>
            (60 + nonWildcardChars (the (pattern r1)) + directoryDepth (the (directory r1))
                  + (if hasSizeRule r1 then 30 else 0) <
               nonWildcardChars (the (pattern r2)) \<longrightarrow>
             getSpecificityScore r1 < getSpecificityScore r2)) \<and>
         (\<not> truthyString (pattern r2) \<and> truthyString (directory r2) \<and> \<not> hasSizeRule r2 \<and>
          directoryDepth (the (directory r2)) \<le> 2 ^ 32 \<longrightarrow>
            (directoryDepth (the (directory r2)) <
               80 + nonWildcardChars (the (pattern r1)) + directoryDepth (the (directory r1))
                  + (if hasSizeRule r1 then 30 else 0) \<longrightarrow>
             getSpecificityScore r2 < getSpecificityScore r1) \<and>
            (80 + nonWildcardChars (the (pattern r1)) + directoryDepth (the (directory r1))
                  + (if hasSizeRule r1 then 30 else 0) <
               directoryDepth (the (directory r2)) \<longrightarrow>
             getSpecificityScore r1 < getSpecificityScore r2))"
proof -
  let ?b = "nonWildcardChars (the (pattern r1)) + directoryDepth (the (directory r1))
              + (if hasSizeRule r1 then 30 else 0)"
  have e1: "exactScore r1 = of_nat (100 + ?b) / 10"
    using exactScore_pattern_and_directory [OF assms(1,2)] by (simp add: add.assoc)
  note b1 = assms(3,4)
  have P: "getSpecificityScore r2 < getSpecificityScore r1"
    if h: "truthyString (pattern r2)" "\<not> truthyString (directory r2)" "\<not> hasSizeRule r2"
          "nonWildcardChars (the (pattern r2)) \<le> 2 ^ 32"
      and lt: "nonWildcardChars (the (pattern r2)) < 60 + ?b"
  proof (rule score_order_from_exact)
    show "exactScore r2 + 1 / 10 \<le> exactScore r1"
      unfolding e1 exactScore_pattern_only [OF h(1,2,3)]
      by (rule tenths_gap) (use lt in simp)
  qed (use h b1 in simp_all)
  have P': "getSpecificityScore r1 < getSpecificityScore r2"
    if h: "truthyString (pattern r2)" "\<not> truthyString (directory r2)" "\<not> hasSizeRule r2"
          "nonWildcardChars (the (pattern r2)) \<le> 2 ^ 32"
      and gt: "60 + ?b < nonWildcardChars (the (pattern r2))"
  proof (rule score_order_from_exact)
    show "exactScore r1 + 1 / 10 \<le> exactScore r2"
      unfolding e1 exactScore_pattern_only [OF h(1,2,3)]
      by (rule tenths_gap) (use gt in simp)
  qed (use h b1 in simp_all)
  have D: "getSpecificityScore r2 < getSpecificityScore r1"
    if h: "\<not> truthyString (pattern r2)" "truthyString (directory r2)" "\<not> hasSizeRule r2"
          "directoryDepth (the (directory r2)) \<le> 2 ^ 32"
      and lt: "directoryDepth (the (directory r2)) < 80 + ?b"
  proof (rule score_order_from_exact)
    show "exactScore r2 + 1 / 10 \<le> exactScore r1"
      unfolding e1 exactScore_directory_only [OF h(1,2,3)]
      by (rule tenths_gap) (use lt in simp)
  qed (use h b1 in simp_all)
  have D': "getSpecificityScore r1 < getSpecificityScore r2"
    if h: "\<not> truthyString (pattern r2)" "truthyString (directory r2)" "\<not> hasSizeRule r2"
          "directoryDepth (the (directory r2)) \<le> 2 ^ 32"
      and gt: "80 + ?b < directoryDepth (the (directory r2))"
  proof (rule score_order_from_exact)
    show "exactScore r1 + 1 / 10 \<le> exactScore r2"
      unfolding e1 exactScore_directory_only [OF h(1,2,3)]
      by (rule tenths_gap) (use gt in simp)
  qed (use h b1 in simp_all)
  show ?thesis
    using P P' D D' by (simp add: add.assoc)
qed

theorem combined_rule_outranks_off_threshold_witness:
  "truthyString (pattern (emptyRule \<lparr> pattern := Some ''*-hero.*'', directory := Some ''banners/'' \<rparr>)) \<and>
   truthyString (directory (emptyRule \<lparr> pattern := Some ''*-hero.*'', directory := Some ''banners/'' \<rparr>)) \<and>
   nonWildcardChars (the (pattern (emptyRule \<lparr> pattern := Some ''*-hero.*'', directory := Some ''banners/'' \<rparr>))) = 6 \<and>
   directoryDepth (the (directory (emptyRule \<lparr> pattern := Some ''*-hero.*'', directory := Some ''banners/'' \<rparr>))) = 1 \<and>
   truthyString (pattern (emptyRule \<lparr> pattern := Some ''*.png'' \<rparr>)) \<and>
   \<not> truthyString (directory (emptyRule \<lparr> pattern := Some ''*.png'' \<rparr>)) \<and>
   \<not> hasSizeRule (emptyRule \<lparr> pattern := Some ''*.png'' \<rparr>) \<and>
   nonWildcardChars (the (pattern (emptyRule \<lparr> pattern := Some ''*.png'' \<rparr>))) = 4 \<and>
   getSpecificityScore (emptyRule \<lparr> pattern := Some ''*.png'' \<rparr>)
     < getSpecificityScore (emptyRule \<lparr> pattern := Some ''*-hero.*'', directory := Some ''banners/'' \<rparr>) \<and>
   \<not> truthyString (pattern (emptyRule \<lparr> directory := Some ''assets/images/'' \<rparr>)) \<and>
   truthyString (directory (emptyRule \<lparr> directory := Some ''assets/images/'' \<rparr>)) \<and>
   \<not> hasSizeRule (emptyRule \<lparr> directory := Some ''assets/images/'' \<rparr>) \<and>
   directoryDepth (the (directory (emptyRule \<lparr> directory := Some ''assets/images/'' \<rparr>))) = 2 \<and>
   getSpecificityScore (emptyRule \<lparr> directory := Some ''assets/images/'' \<rparr>)
     < getSpecificityScore (emptyRule \<lparr> pattern := Some ''*-hero.*'', directory := Some ''banners/'' \<rparr>)"
  using combined_rule_outranks_off_threshold
          [of "emptyRule \<lparr> pattern := Some ''*-hero.*'', directory := Some ''banners/'' \<rparr>"
              "emptyRule \<lparr> pattern := Some ''*.png'' \<rparr>"]
        combined_rule_outranks_off_threshold
          [of "emptyRule \<lparr> pattern := Some ''*-hero.*'', directory := Some ''banners/'' \<rparr>"
              "emptyRule \<lparr> directory := Some ''assets/images/'' \<rparr>"]
  by (simp add: emptyRule_def truthyString_def truthyNumber_def hasSizeRule_def
        nonWildcardChars_def removeWildcards_def directoryDepth_def)

text \<open>
  Claim C2 as the specification states it fails: a rule with pattern \<open>a\<close> and directory
  \<open>b\<close> has the exact sum 10.2 and a rule whose only criterion is a pattern of 74
  literal characters has 11.4; the doubles are ordered the same way.
\<close>

theorem long_pattern_outranks_combined_rule:
  "getSpecificityScore (emptyRule \<lparr> pattern := Some ''a'', directory := Some ''b'' \<rparr>)
     < getSpecificityScore
         (emptyRule \<lparr> pattern :=
            Some ''annual-report-2024-final-approved-version-with-appendix-and-cover-page.png'' \<rparr>)"
  by (rule score_order_from_exact)
     (simp_all add: emptyRule_def exactScore_def criteriaCount_def truthyString_def hasSizeRule_def
        truthyNumber_def nonWildcardChars_def removeWildcards_def directoryDepth_def)

text \<open>
  At the threshold rounding decides: a rule for a directory of depth 86 and a rule with
  the pattern \<open>aaaa\<close> and the directory \<open>d/d/\<close> both have the exact sum 10.6, and
  the engine computes 10.6 for the first and the next double above it for the second.
\<close>

lemma score_at_threshold_example:
  "getSpecificityScore (emptyRule \<lparr> directory := Some (concat (replicate 86 ''d/'')) \<rparr>)
     < getSpecificityScore (emptyRule \<lparr> pattern := Some ''aaaa'', directory := Some ''d/d/'' \<rparr>) \<and>
   exactScore (emptyRule \<lparr> directory := Some (concat (replicate 86 ''d/'')) \<rparr>)
     = exactScore (emptyRule \<lparr> pattern := Some ''aaaa'', directory := Some ''d/d/'' \<rparr>)"
  by code_simp

subsection \<open>Timestamps\<close>

lemma anyOutputStale_iff:
  "anyOutputStale stat t outs = (\<exists>p\<in>set outs. case stat p of None \<Rightarrow> True | Some u \<Rightarrow> u < t)"
  by (induction outs) (auto simp: getModTime_def split: option.splits)

text \<open>
  Claim C10.  Without force-reprocess and with the input's modification time \<open>t\<close> at hand,
  \<open>shouldProcess\<close> answers no exactly when every output exists with a modification time
  of \<open>t\<close> or later; an output stamped exactly \<open>t\<close> is up to date, and only a missing
  output or one strictly older than the input makes the answer yes.
\<close>

theorem shouldProcess_false_iff_outputs_current:
  assumes "stat inputPath = Some t"
  shows "(\<not> shouldProcess stat inputPath outputPaths False) =
           (\<forall>p\<in>set outputPaths. \<exists>u. stat p = Some u \<and> t \<le> u)"
  using assms
  by (auto simp: shouldProcess_def getModTime_def anyOutputStale_iff split: option.splits)

theorem shouldProcess_false_iff_outputs_current_witness:
  "(\<lambda>p. if p = ''in.png'' then Some 100 else if p = ''out.webp'' then Some (100::int) else None)
     ''in.png'' = Some 100 \<and>
   (\<lambda>p. if p = ''in.png'' then Some 100 else if p = ''out.webp'' then Some (100::int) else None)
     ''out.webp'' = Some 100 \<and> (100::int) \<le> 100 \<and>
   \<not> shouldProcess
       (\<lambda>p. if p = ''in.png'' then Some 100 else if p = ''out.webp'' then Some 100 else None)
       ''in.png'' [''out.webp''] False"
  using shouldProcess_false_iff_outputs_current
          [of "\<lambda>p. if p = ''in.png'' then Some 100 else if p = ''out.webp'' then Some 100 else None"
              "''in.png''" 100 "[''out.webp'']"]
  by simp

subsection \<open>A missing input\<close>

text \<open>
  Claim C8, as the code has it.  When the input can be neither read nor stat'ed and
  force-reprocess is off, the file is not processed and the result is \<open>'skipped'\<close>, which
  the job counts among the skipped files.
\<close>

theorem missing_input_is_skipped:
  assumes "fileText (fsBefore env) inputPath = None"
      and "fileMtime (fsBefore env) inputPath = None"
      and "\<not> forceReprocess options"
  shows "optimizeImage config path env inputPath filename options = Skipped \<and>
         updateStats s (optimizeImage config path env inputPath filename options) =
           s \<lparr> skipped := skipped s + 1 \<rparr>"
  using assms
  by (simp add: optimizeImage_def isGitLfsPointer_def optimizeAfterLfs_def shouldProcess_def
        getModTime_def Let_def)

theorem missing_input_is_skipped_witness:
  "fileText (fsBefore (collaboratorsOn emptyFileSystem)) ''original/gone.png'' = None \<and>
   fileMtime (fsBefore (collaboratorsOn emptyFileSystem)) ''original/gone.png'' = None \<and>
   \<not> forceReprocess \<lparr> forceReprocess = False, pullLfs = True \<rparr> \<and>
   updateStats emptyStats
     (optimizeImage defaultConfig stubPath (collaboratorsOn emptyFileSystem)
        ''original/gone.png'' ''gone.png'' \<lparr> forceReprocess = False, pullLfs = True \<rparr>) =
     emptyStats \<lparr> skipped := 1 \<rparr>"
  using missing_input_is_skipped
          [of "collaboratorsOn emptyFileSystem" "''original/gone.png''"
              "\<lparr> forceReprocess = False, pullLfs = True \<rparr>" defaultConfig stubPath
              "''gone.png''" emptyStats]
  by (simp add: collaboratorsOn_def emptyFileSystem_def emptyStats_def)

text \<open>
  Claim C8 as the specification states it fails: for an input that does not exist the
  result is \<open>'skipped'\<close>, the state the claim excludes, and neither \<open>'error'\<close> nor
  \<open>'lfs-error'\<close>.
\<close>

theorem missing_input_is_not_failed:
  "optimizeImage defaultConfig stubPath (collaboratorsOn emptyFileSystem)
     ''original/gone.png'' ''gone.png'' \<lparr> forceReprocess = False, pullLfs = False \<rparr> = Skipped"
  by (simp add: optimizeImage_def isGitLfsPointer_def optimizeAfterLfs_def shouldProcess_def
        getModTime_def collaboratorsOn_def emptyFileSystem_def Let_def)

subsection \<open>Retries\<close>




lemma attemptLoop_exhausted:
  assumes "\<not> withinLimit attempt (maxRetries m)"
  shows "attemptLoop m operation ctx attempt lastError st =
           Some (st, Returned \<lparr> success = False, result = None, error = lastError,
                                 attempts = maxRetries m \<rparr>)"
  using assms by (subst attemptLoop.simps) simp

lemma attemptLoop_lastError_irrelevant:
  assumes "withinLimit attempt (maxRetries m)"
  shows "attemptLoop m operation ctx attempt lastError st =
         attemptLoop m operation ctx attempt lastError' st"
  using assms
  by (subst attemptLoop.simps, subst (2) attemptLoop.simps) simp








text \<open>
  The same happens under a negative limit, as after \<open>--max-retries=-1\<close>: the loop body
  never runs and the operation is not called.
\<close>

lemma negative_retry_limit_returns_at_once:
  "processWithRecovery
     (newErrorRecoveryManager \<lparr> optContinueOnError = Some True, optMaxRetries = Some (Num (- 1)),
        optRetryDelay = None, optExponentialBackoff = None \<rparr>)
     (mockOperation [] (Inl timeoutError :: jsError + string)) testContext freshState =
   Some (freshState, Returned \<lparr> success = False, result = None, error = None,
                                 attempts = Num (- 1) \<rparr>)"
  by (simp add: processWithRecovery_def attemptLoop.simps freshState_def mockOperation_def
        withinLimit_def newErrorRecoveryManager_def truthyJsNumber_def)







lemma length_upto_from_one:
  "length [1..n] = nat n"
  by simp






subsection \<open>Rules of equal specificity\<close>

lemma insertWith_insort_key:
  "insertWith (\<lambda>a b. score b - score a) x ys = insort_key (\<lambda>r. - score r) x ys"
  by (induction ys) auto

lemma sortRulesBySpecificity_sort_key:
  "sortRulesBySpecificity score rs = sort_key (\<lambda>r. - score r) rs"
  unfolding sortRulesBySpecificity_def sortWith_def sort_key_def
  by (induction rs) (simp_all add: Let_def insertWith_insort_key)

lemma sort_key_head:
  assumes "\<forall>x\<in>set pre. f r < f x" and "\<forall>x\<in>set post. f r \<le> f x"
  shows "\<exists>rest. sort_key f (pre @ r # post) = r # rest"
  using assms
proof (induction pre)
  case Nil
  have "\<forall>x\<in>set (sort_key f post). f r \<le> f x"
    using Nil.prems(2) by simp
  then have "insort_key f r (sort_key f post) = r # sort_key f post"
    by (rule insort_is_Cons)
  then show ?case by simp
next
  case (Cons p pre)
  then obtain rest where rest: "sort_key f (pre @ r # post) = r # rest"
    by auto
  have "\<not> f p \<le> f r" using Cons.prems(1) by auto
  then show ?case
    using rest by simp
qed

lemma merge_first_defining:
  "foldr (\<lambda>r mergedQuality. case quality r of None \<Rightarrow> mergedQuality | Some q \<Rightarrow> mergedQuality ++ q)
         ms d k =
   (case filter (\<lambda>r. \<exists>q. quality r = Some q \<and> k \<in> dom q) ms of
      [] \<Rightarrow> d k
    | r # rest \<Rightarrow> the (quality r) k)"
proof (induction ms)
  case Nil
  then show ?case by simp
next
  case (Cons r ms)
  show ?case
  proof (cases "quality r")
    case None
    then show ?thesis using Cons.IH by simp
  next
    case (Some q)
    then show ?thesis
      using Cons.IH by (auto simp: map_add_def split: option.splits list.splits)
  qed
qed

lemma getQualityForImage_first_defining:
  "getQualityForImage deps rules imagePath md d k =
   (case filter (\<lambda>r. \<exists>q. quality r = Some q \<and> k \<in> dom q)
           (filter (\<lambda>r. ruleMatches deps r imagePath md) rules) of
      [] \<Rightarrow> d k
    | r # rest \<Rightarrow> the (quality r) k)"
  unfolding getQualityForImage_def Let_def
  by (simp only: foldr_conv_fold [symmetric] merge_first_defining)

text \<open>
  Claim C9, as the code has it.  Let two declared rules match the image with equal scores,
  the first declared before the second, and let every other matching rule that sets the
  format key \<open>k\<close> score strictly lower.  Then the resolved quality has the value of the
  earlier-declared rule at \<open>k\<close>: the stable descending sort keeps the earlier rule in
  front, the reversal applies it last, and the value applied last stays.  This holds for
  every score function, so also for the scores as computed in doubles.
\<close>

theorem equal_specificity_earlier_declared_wins:
  assumes "i < j" and "j < length declared"
      and "ruleMatches deps (declared ! i) imagePath md"
      and "ruleMatches deps (declared ! j) imagePath md"
      and "score (declared ! i) = score (declared ! j)"
      and "quality (declared ! i) = Some qi" and "quality (declared ! j) = Some qj"
      and "k \<in> dom qi" and "k \<in> dom qj"
      and "\<forall>l < length declared. l \<noteq> i \<and> l \<noteq> j \<and> ruleMatches deps (declared ! l) imagePath md \<and>
             (\<exists>q. quality (declared ! l) = Some q \<and> k \<in> dom q) \<longrightarrow>
             score (declared ! l) < score (declared ! i)"
  shows "resolveQuality score deps declared imagePath md defaultQuality k = qi k"
proof -
  let ?P = "\<lambda>r. ruleMatches deps r imagePath md"
  let ?D = "\<lambda>r. \<exists>q. quality r = Some q \<and> k \<in> dom q"
  let ?PD = "\<lambda>r. ?P r \<and> ?D r"
  let ?f = "\<lambda>r. - score r"
  let ?ri = "declared ! i"
  have i: "i < length declared" using assms(1,2) by simp
  have split: "declared = take i declared @ ?ri # drop (Suc i) declared"
    using i by (simp add: id_take_nth_drop)
  have PDi: "?PD ?ri" using assms(3,6,8) by simp
  have L: "filter ?PD declared =
           filter ?PD (take i declared) @ ?ri # filter ?PD (drop (Suc i) declared)"
    by (subst split) (simp add: PDi)
  have pre: "\<forall>x\<in>set (filter ?PD (take i declared)). ?f ?ri < ?f x"
  proof
    fix x assume x: "x \<in> set (filter ?PD (take i declared))"
    then obtain l where l: "l < i" "x = declared ! l"
      using i by (auto simp: in_set_conv_nth)
    then have "score (declared ! l) < score ?ri"
      using assms(1,2,10) x by auto
    then show "?f ?ri < ?f x" using l by simp
  qed
  have post: "\<forall>x\<in>set (filter ?PD (drop (Suc i) declared)). ?f ?ri \<le> ?f x"
  proof
    fix x assume x: "x \<in> set (filter ?PD (drop (Suc i) declared))"
    then have "x \<in> set (drop (Suc i) declared)" by simp
    then obtain n where "n < length (drop (Suc i) declared)" "x = drop (Suc i) declared ! n"
      by (metis in_set_conv_nth)
    then have n: "Suc i + n < length declared" "x = declared ! (Suc i + n)"
      by auto
    show "?f ?ri \<le> ?f x"
    proof (cases "Suc i + n = j")
      case True
      then show ?thesis using n assms(5) by simp
    next
      case False
      then have "score (declared ! (Suc i + n)) < score ?ri"
        using assms(10) n x by auto
      then show ?thesis using n by simp
    qed
  qed
  obtain rest where rest: "sort_key ?f (filter ?PD declared) = ?ri # rest"
    unfolding L using sort_key_head [OF pre post] by auto
  have "filter ?D (filter ?P (sort_key ?f declared)) = sort_key ?f (filter ?PD declared)"
    by (simp add: filter_sort)
  then have "filter ?D (filter ?P (sortRulesBySpecificity score declared)) = ?ri # rest"
    using rest by (simp add: sortRulesBySpecificity_sort_key)
  then show ?thesis
    unfolding resolveQuality_def getQualityForImage_first_defining
    using assms(6) by simp
qed

theorem equal_specificity_earlier_declared_wins_witness:
  "(0::nat) < 1 \<and> 1 < length [emptyRule \<lparr> directory := Some ''img/'', quality := Some [''webp'' \<mapsto> 70] \<rparr>, emptyRule \<lparr> directory := Some ''img/'', quality := Some [''webp'' \<mapsto> 90] \<rparr>] \<and>
   ruleMatches stubDependencies ([emptyRule \<lparr> directory := Some ''img/'', quality := Some [''webp'' \<mapsto> 70] \<rparr>, emptyRule \<lparr> directory := Some ''img/'', quality := Some [''webp'' \<mapsto> 90] \<rparr>] ! 0) ''img/a.png'' None \<and>
   ruleMatches stubDependencies ([emptyRule \<lparr> directory := Some ''img/'', quality := Some [''webp'' \<mapsto> 70] \<rparr>, emptyRule \<lparr> directory := Some ''img/'', quality := Some [''webp'' \<mapsto> 90] \<rparr>] ! 1) ''img/a.png'' None \<and>
   getSpecificityScore ([emptyRule \<lparr> directory := Some ''img/'', quality := Some [''webp'' \<mapsto> 70] \<rparr>, emptyRule \<lparr> directory := Some ''img/'', quality := Some [''webp'' \<mapsto> 90] \<rparr>] ! 0) = getSpecificityScore ([emptyRule \<lparr> directory := Some ''img/'', quality := Some [''webp'' \<mapsto> 70] \<rparr>, emptyRule \<lparr> directory := Some ''img/'', quality := Some [''webp'' \<mapsto> 90] \<rparr>] ! 1) \<and>
   resolveQuality getSpecificityScore stubDependencies [emptyRule \<lparr> directory := Some ''img/'', quality := Some [''webp'' \<mapsto> 70] \<rparr>, emptyRule \<lparr> directory := Some ''img/'', quality := Some [''webp'' \<mapsto> 90] \<rparr>] ''img/a.png'' None
     [''webp'' \<mapsto> 80] ''webp'' = Some 70"
  using equal_specificity_earlier_declared_wins
          [where i = 0 and j = 1 and declared = "[emptyRule \<lparr> directory := Some ''img/'', quality := Some [''webp'' \<mapsto> 70] \<rparr>, emptyRule \<lparr> directory := Some ''img/'', quality := Some [''webp'' \<mapsto> 90] \<rparr>]" and deps = stubDependencies
             and imagePath = "''img/a.png''" and md = None and score = getSpecificityScore
             and qi = "[''webp'' \<mapsto> 70]" and qj = "[''webp'' \<mapsto> 90]" and k = "''webp''"
             and defaultQuality = "[''webp'' \<mapsto> 80]"]
  by (simp add: ruleMatches_def matchesDirectory_def checkSizeRule_def truthyString_def
        truthyNumber_def emptyRule_def replaceBackslashes_def backslash_def endsWith_def Let_def
        getSpecificityScore_def hasSizeRule_def directoryDepth_def criteriaCount_def nth_Cons')

text \<open>
  Claim C9 as the specification states it fails: of two rules for the directory
  \<open>img/\<close> with equal scores, the first sets \<open>webp\<close> to 70 and the second, declared
  later, to 90; the resolved value is 70.
\<close>

theorem equal_specificity_later_declared_loses:
  "getSpecificityScore (emptyRule \<lparr> directory := Some ''img/'', quality := Some [''webp'' \<mapsto> 70] \<rparr>) = getSpecificityScore (emptyRule \<lparr> directory := Some ''img/'', quality := Some [''webp'' \<mapsto> 90] \<rparr>) \<and>
   ruleMatches stubDependencies (emptyRule \<lparr> directory := Some ''img/'', quality := Some [''webp'' \<mapsto> 70] \<rparr>) ''img/a.png'' None \<and>
   ruleMatches stubDependencies (emptyRule \<lparr> directory := Some ''img/'', quality := Some [''webp'' \<mapsto> 90] \<rparr>) ''img/a.png'' None \<and>
   resolveQuality getSpecificityScore stubDependencies [emptyRule \<lparr> directory := Some ''img/'', quality := Some [''webp'' \<mapsto> 70] \<rparr>, emptyRule \<lparr> directory := Some ''img/'', quality := Some [''webp'' \<mapsto> 90] \<rparr>] ''img/a.png'' None
     [''webp'' \<mapsto> 80] ''webp'' = Some 70"
  by (simp add: resolveQuality_def getQualityForImage_def sortRulesBySpecificity_def sortWith_def
        ruleMatches_def matchesDirectory_def checkSizeRule_def truthyString_def truthyNumber_def
        emptyRule_def replaceBackslashes_def backslash_def endsWith_def Let_def
        getSpecificityScore_def hasSizeRule_def directoryDepth_def criteriaCount_def)

subsection \<open>The batch job\<close>

lemma logError_fields [simp]:
  "progressFilenames (logError f e c st) = progressFilenames st"
  "optimizerCalls (logError f e c st) = optimizerCalls st"
  "stateFile (logError f e c st) = stateFile st"
  "processedFiles (logError f e c st) = processedFiles st"
  "errorLogKept (logError f e c st)"
  by (simp_all add: logError_def Let_def errorLogKept_def)

lemma recordProcessedFile_fields [simp]:
  "progressFilenames (recordProcessedFile f s st) = progressFilenames st"
  "optimizerCalls (recordProcessedFile f s st) = optimizerCalls st"
  "errorLogKept (recordProcessedFile f s st) = errorLogKept st"
  by (simp_all add: recordProcessedFile_def errorLogKept_def)

lemma saveState_fields [simp]:
  "progressFilenames (saveState st) = progressFilenames st"
  "optimizerCalls (saveState st) = optimizerCalls st"
  "errorLogKept (saveState st) = errorLogKept st"
  by (simp_all add: saveState_def errorLogKept_def)

lemma loadState_fields [simp]:
  "progressFilenames (snd (loadState st)) = progressFilenames st"
  "optimizerCalls (snd (loadState st)) = optimizerCalls st"
  "errorLogKept (snd (loadState st)) = errorLogKept st"
  by (simp_all add: loadState_def Let_def errorLogKept_def split: option.splits)

lemma errorLogKept_announce [simp]:
  "errorLogKept (st \<lparr> progressFilenames := fs \<rparr>) = errorLogKept st"
  "errorLogKept (st \<lparr> optimizerCalls := cs \<rparr>) = errorLogKept st"
  by (simp_all add: errorLogKept_def)

lemma clearState_fields [simp]:
  "progressFilenames (clearState st) = progressFilenames st"
  "optimizerCalls (clearState st) = optimizerCalls st"
  "stateFile (clearState st) = None"
  "errorLogFile (clearState st) = None"
  "loggerErrors (clearState st) = []"
  "processedFiles (clearState st) = []"
  by (simp_all add: clearState_def)

lemma updateStats_errors:
  "errors (updateStats s res) = errors s + (if res = Error then 1 else 0)"
  by (cases res) simp_all

lemma tryFile_effect:
  assumes "tryFile env continue i f (stats, st) = ((stats', st'), thrown)"
  shows "progressFilenames st' = progressFilenames st"
    and "optimizerCalls st' =
           optimizerCalls st @ (if qualityLookup env f = None then [f] else [])"
    and "errorLogKept st \<Longrightarrow> errorLogKept st'"
    and "errors stats' \<noteq> errors stats \<Longrightarrow> errorLogKept st'"
    and "thrown = None \<Longrightarrow>
           errors stats' = errors stats + (if countsAsError env f then 1 else 0)"
    and "thrown \<noteq> None \<Longrightarrow> countsAsError env f"
    and "\<not> continue \<Longrightarrow> countsAsError env f \<Longrightarrow> thrown \<noteq> None"
proof -
  show "progressFilenames st' = progressFilenames st"
    and "optimizerCalls st' =
           optimizerCalls st @ (if qualityLookup env f = None then [f] else [])"
    and "errorLogKept st \<Longrightarrow> errorLogKept st'"
    and "errors stats' \<noteq> errors stats \<Longrightarrow> errorLogKept st'"
    and "thrown = None \<Longrightarrow>
           errors stats' = errors stats + (if countsAsError env f then 1 else 0)"
    and "thrown \<noteq> None \<Longrightarrow> countsAsError env f"
    and "\<not> continue \<Longrightarrow> countsAsError env f \<Longrightarrow> thrown \<noteq> None"
    using assms
    by (cases "qualityLookup env f";
        auto simp: tryFile_def Let_def updateStats_errors countsAsError_def
             split: sum.splits if_splits)+
qed

text \<open>
  The files a loop over \<open>files\<close> takes up: all of them when it continues on error,
  otherwise those up to and including the first that fails.
\<close>

lemma fileLoop_visits:
  assumes "fileLoop env continue i files (stats, st) = ((stats', st'), thrown)"
  shows "progressFilenames st' = progressFilenames st @ takenUp env continue files \<and>
         optimizerCalls st' =
           optimizerCalls st @
             filter (\<lambda>f. qualityLookup env f = None) (takenUp env continue files) \<and>
         (thrown = None \<longleftrightarrow> continue \<or> \<not> (\<exists>f \<in> set files. countsAsError env f))"
  using assms
proof (induction files arbitrary: i stats st)
  case Nil
  then show ?case by (simp add: takenUp_def)
next
  case (Cons f rest)
  let ?st0 = "st \<lparr> progressFilenames := progressFilenames st @ [f] \<rparr>"
  obtain stats1 st1 thrown1
    where t: "tryFile env continue i f (stats, ?st0) = ((stats1, st1), thrown1)"
    by (metis prod.exhaust)
  note te = tryFile_effect [OF t]
  have p1: "progressFilenames st1 = progressFilenames st @ [f]"
    using te(1) by simp
  have c1: "optimizerCalls st1 =
              optimizerCalls st @ (if qualityLookup env f = None then [f] else [])"
    using te(2) by simp
  show ?case
  proof (cases thrown1)
    case None
    then have l: "fileLoop env continue (i + 1) rest (stats1, st1) = ((stats', st'), thrown)"
      using Cons.prems t by (simp add: Let_def)
    have ok: "continue \<or> \<not> countsAsError env f"
      using te(7) None by blast
    have tu: "takenUp env continue (f # rest) = f # takenUp env continue rest"
      using ok by (auto simp add: takenUp_def)
    from Cons.IH [OF l] show ?thesis
      using p1 c1 ok tu by auto
  next
    case (Some e)
    let ?stats2 = "stats1 \<lparr> errors := errors stats1 + 1 \<rparr>"
    let ?st2 = "logError (Some f) e processingErrorContext st1"
    have bad: "countsAsError env f"
      using te(6) Some by simp
    show ?thesis
    proof (cases continue)
      case False
      then have "((stats', st'), thrown) = ((?stats2, ?st2), Some e)"
        using Cons.prems t Some by (simp add: Let_def)
      moreover have "takenUp env continue (f # rest) = [f]"
        using False bad by (simp add: takenUp_def)
      ultimately show ?thesis
        using p1 c1 bad False by auto
    next
      case True
      then have l: "fileLoop env continue (i + 1) rest (?stats2, ?st2) = ((stats', st'), thrown)"
        using Cons.prems t Some by (simp add: Let_def)
      have tu: "takenUp env continue (f # rest) = f # takenUp env continue rest"
        using True by (simp add: takenUp_def)
      from Cons.IH [OF l] show ?thesis
        using p1 c1 True tu by auto
    qed
  qed
qed


lemma takenUp_prefix: "prefix (takenUp env continue files) files"
proof -
  have "prefix (takeWhile P xs @ take 1 (dropWhile P xs)) xs" for P and xs :: "string list"
    by (metis append_prefixD append_take_drop_id prefix_order.order_refl
          same_prefix_prefix takeWhile_dropWhile_id)
  then show ?thesis
    by (simp add: takenUp_def)
qed

lemma takenUp_all:
  assumes "continue \<or> \<not> (\<exists>f \<in> set files. countsAsError env f)"
  shows "takenUp env continue files = files"
proof (cases continue)
  case True
  then show ?thesis by (simp add: takenUp_def)
next
  case False
  then have "\<forall>f \<in> set files. \<not> countsAsError env f"
    using assms by blast
  then have "takeWhile (\<lambda>file. \<not> countsAsError env file) files = files \<and>
             dropWhile (\<lambda>file. \<not> countsAsError env file) files = []"
    by (induction files) auto
  then have a: "takeWhile (\<lambda>file. \<not> countsAsError env file) files = files"
    and b: "dropWhile (\<lambda>file. \<not> countsAsError env file) files = []"
    by blast+
  show ?thesis
    unfolding takenUp_def a b by simp
qed

lemma slice_drop: "0 \<le> k \<Longrightarrow> slice xs k = drop (nat k) xs"
  by (simp add: slice_def)

lemma startIndexOf_progress:
  assumes "\<not> truthyNumber (checkpointProcessedCount saved)" "progressProcessed saved = Some k"
  shows "startIndexOf saved = k"
  using assms by (auto simp: startIndexOf_def truthyNumber_def)

lemma loadState_current_version:
  assumes "stateFile st = Some saved" "version saved = ''1.0''"
  shows "fst (loadState st) = Some saved"
  using assms by (simp add: loadState_def statePersistenceLoad_def Let_def)

lemma processImages_run:
  assumes "imageFiles env \<noteq> []"
      and "fileLoop env (runContinueOnError options) 0 (filesToProcess env options st)
             (emptyStats, snd (loadState st)) = ((stats1, st1), thrown)"
  shows "processImages env options st =
        (case thrown of
           Some e \<Rightarrow> (logError (Some ''FATAL'') e
                        \<lparr> contextFile = None, contextAttempt = None, contextType = Some ''fatal'' \<rparr> st1,
                      Thrown e)
         | None \<Rightarrow> (if errors stats1 = 0 then (clearState st1, Returned stats1)
                    else (saveState st1, Returned stats1)))"
  using assms by (simp add: processImages_def Let_def)

text \<open>
  Claim C5, as the code has it.  Let the run start with the resume flag on a checkpoint of
  the current version whose \<open>progress.processed\<close> is \<open>k\<close> (and which has no legacy
  \<open>checkpoint.processedCount\<close>).  Then the work list is the enumeration from index
  \<open>k\<close> on.  The run takes up (announces) the files of that list in order, all of them
  when it continues on error and otherwise up to and including the first file that fails;
  it calls the optimizer on exactly the files it took up whose quality lookup did not
  throw, and on no other file.  The run returns exactly when it continues on error or no
  file of the work list fails, and then it has taken up the whole work list; otherwise it
  throws.
\<close>

theorem resume_processes_from_processed_count:
  assumes "resumeFlag options" and "stateFile st = Some saved" and "version saved = ''1.0''"
      and "\<not> truthyNumber (checkpointProcessedCount saved)"
      and "progressProcessed saved = Some k" and "0 \<le> k"
  shows "filesToProcess env options st = drop (nat k) (imageFiles env) \<and>
         progressFilenames (fst (processImages env options st)) =
           progressFilenames st @
             takenUp env (runContinueOnError options) (drop (nat k) (imageFiles env)) \<and>
         optimizerCalls (fst (processImages env options st)) =
           optimizerCalls st @
             filter (\<lambda>f. qualityLookup env f = None)
               (takenUp env (runContinueOnError options) (drop (nat k) (imageFiles env))) \<and>
         prefix (takenUp env (runContinueOnError options) (drop (nat k) (imageFiles env)))
                (drop (nat k) (imageFiles env)) \<and>
         ((\<exists>stats. snd (processImages env options st) = Returned stats) \<longleftrightarrow>
            runContinueOnError options \<or>
            \<not> (\<exists>f \<in> set (drop (nat k) (imageFiles env)). countsAsError env f)) \<and>
         ((\<exists>stats. snd (processImages env options st) = Returned stats) \<longrightarrow>
            takenUp env (runContinueOnError options) (drop (nat k) (imageFiles env)) =
              drop (nat k) (imageFiles env))"
proof -
  let ?work = "drop (nat k) (imageFiles env)"
  let ?continue = "runContinueOnError options"
  have work: "filesToProcess env options st = ?work"
    using assms
    by (simp add: filesToProcess_def Let_def loadState_current_version startIndexOf_progress
          slice_drop)
  have rest: "progressFilenames (fst (processImages env options st)) =
                progressFilenames st @ takenUp env ?continue ?work \<and>
              optimizerCalls (fst (processImages env options st)) =
                optimizerCalls st @
                  filter (\<lambda>f. qualityLookup env f = None) (takenUp env ?continue ?work) \<and>
              ((\<exists>stats. snd (processImages env options st) = Returned stats) \<longleftrightarrow>
                 ?continue \<or> \<not> (\<exists>f \<in> set ?work. countsAsError env f))"
  proof (cases "imageFiles env = []")
    case True
    then show ?thesis
      by (simp add: processImages_def takenUp_def)
  next
    case False
    obtain stats1 st1 thrown where
      loop: "fileLoop env ?continue 0 (filesToProcess env options st)
               (emptyStats, snd (loadState st)) = ((stats1, st1), thrown)"
      by (metis prod.exhaust)
    note run = processImages_run [OF False loop]
    from fileLoop_visits [OF loop [unfolded work]]
    have v: "progressFilenames st1 = progressFilenames st @ takenUp env ?continue ?work"
            "optimizerCalls st1 =
               optimizerCalls st @
                 filter (\<lambda>f. qualityLookup env f = None) (takenUp env ?continue ?work)"
            "thrown = None \<longleftrightarrow> ?continue \<or> \<not> (\<exists>f \<in> set ?work. countsAsError env f)"
      by simp_all
    show ?thesis
    proof (cases thrown)
      case None
      then show ?thesis
        using v by (simp add: run)
    next
      case (Some e)
      then show ?thesis
        using v by (simp add: run)
    qed
  qed
  have all: "(\<exists>stats. snd (processImages env options st) = Returned stats) \<longrightarrow>
               takenUp env ?continue ?work = ?work"
    using rest takenUp_all [of ?continue ?work env] by blast
  show ?thesis
    using work rest all takenUp_prefix by blast
qed

theorem resume_processes_from_processed_count_witness:
  "resumeFlag \<lparr> runContinueOnError = True, resumeFlag = True \<rparr> \<and>
   stateFile (freshState \<lparr> stateFile := Some checkpointAtFive \<rparr>) = Some checkpointAtFive \<and>
   version checkpointAtFive = ''1.0'' \<and>
   \<not> truthyNumber (checkpointProcessedCount checkpointAtFive) \<and>
   progressProcessed checkpointAtFive = Some 5 \<and> (0::int) \<le> 5 \<and>
   snd (processImages
          \<lparr> imageFiles = tenFiles, qualityLookup = lookupSucceeds,
            optimizeFile = sameForEveryFile (Inr Processed) \<rparr>
          \<lparr> runContinueOnError = True, resumeFlag = True \<rparr>
          (freshState \<lparr> stateFile := Some checkpointAtFive \<rparr>)) =
     Returned (emptyStats \<lparr> processed := 5 \<rparr>) \<and>
   progressFilenames
     (fst (processImages
             \<lparr> imageFiles = tenFiles, qualityLookup = lookupSucceeds,
               optimizeFile = sameForEveryFile (Inr Processed) \<rparr>
             \<lparr> runContinueOnError = True, resumeFlag = True \<rparr>
             (freshState \<lparr> stateFile := Some checkpointAtFive \<rparr>))) =
     [''f5'', ''f6'', ''f7'', ''f8'', ''f9''] \<and>
   optimizerCalls
     (fst (processImages
             \<lparr> imageFiles = tenFiles, qualityLookup = lookupSucceeds,
               optimizeFile = sameForEveryFile (Inr Processed) \<rparr>
             \<lparr> runContinueOnError = True, resumeFlag = True \<rparr>
             (freshState \<lparr> stateFile := Some checkpointAtFive \<rparr>))) =
     [''f5'', ''f6'', ''f7'', ''f8'', ''f9'']"
  using resume_processes_from_processed_count
          [where options = "\<lparr> runContinueOnError = True, resumeFlag = True \<rparr>"
             and st = "freshState \<lparr> stateFile := Some checkpointAtFive \<rparr>"
             and saved = checkpointAtFive and k = 5
             and env = "\<lparr> imageFiles = tenFiles, qualityLookup = lookupSucceeds,
                           optimizeFile = sameForEveryFile (Inr Processed) \<rparr>"]
  by (simp add: processImages_def filesToProcess_def loadState_def statePersistenceLoad_def
        startIndexOf_def truthyNumber_def slice_def tryFile_def sameForEveryFile_def
        lookupSucceeds_def freshState_def emptyStats_def tenFiles_def checkpointAtFive_def
        recordProcessedFile_def saveState_def clearState_def logError_def orZero_def
        processingErrorContext_def takenUp_def countsAsError_def Let_def)

text \<open>
  Claim C5 as the specification states it fails.  Ten files are enumerated and the
  checkpoint says five were processed; the job does not continue on error and the
  optimizer reports \<open>'error'\<close>.  The resumed run takes up the file at index 5 only and
  throws: the files at the indices 6 to 9 are not processed.
\<close>

theorem resumed_run_stops_at_first_failure:
  "snd (processImages
          \<lparr> imageFiles = tenFiles, qualityLookup = lookupSucceeds,
            optimizeFile = sameForEveryFile (Inr Error) \<rparr>
          \<lparr> runContinueOnError = False, resumeFlag = True \<rparr>
          (freshState \<lparr> stateFile := Some checkpointAtFive \<rparr>)) =
     Thrown \<lparr> message = Some ''Failed to process f5'', code = None \<rparr> \<and>
   progressFilenames
     (fst (processImages
             \<lparr> imageFiles = tenFiles, qualityLookup = lookupSucceeds,
               optimizeFile = sameForEveryFile (Inr Error) \<rparr>
             \<lparr> runContinueOnError = False, resumeFlag = True \<rparr>
             (freshState \<lparr> stateFile := Some checkpointAtFive \<rparr>))) = [''f5''] \<and>
   optimizerCalls
     (fst (processImages
             \<lparr> imageFiles = tenFiles, qualityLookup = lookupSucceeds,
               optimizeFile = sameForEveryFile (Inr Error) \<rparr>
             \<lparr> runContinueOnError = False, resumeFlag = True \<rparr>
             (freshState \<lparr> stateFile := Some checkpointAtFive \<rparr>))) = [''f5'']"
  by (simp add: processImages_def filesToProcess_def loadState_def statePersistenceLoad_def
        startIndexOf_def truthyNumber_def slice_def tryFile_def sameForEveryFile_def
        lookupSucceeds_def freshState_def emptyStats_def tenFiles_def checkpointAtFive_def
        recordProcessedFile_def saveState_def clearState_def logError_def orZero_def
        processingErrorContext_def Let_def)





text \<open>A run that finds no image returns at once and leaves both files where they are.\<close>

lemma empty_enumeration_leaves_state:
  "processImages \<lparr> imageFiles = [], qualityLookup = q, optimizeFile = f \<rparr> options st =
     (st, Returned emptyStats)"
  by (simp add: processImages_def)

end
